theory Spec2Isabelle
  imports Main "HOL-Library.Multiset"
begin

section \<open>JavaScript strings\<close>

text \<open>
  A JavaScript string is modelled as a \<^typ>\<open>string\<close>, one \<^typ>\<open>char\<close> per code
  unit. The three string operations that \<^verbatim>\<open>buildFiles.ts\<close> uses are
  \<^verbatim>\<open>String.prototype.includes\<close>, \<^verbatim>\<open>String.prototype.replace\<close> with a
  string pattern, and \<^verbatim>\<open>String.prototype.replace\<close> with the regular expression
  \<^verbatim>\<open>/[^/]*\//\<close>.
\<close>

definition slash :: char where
  "slash = CHR ''/''"

definition dot :: char where
  "dot = CHR ''.''"

text \<open>\<^verbatim>\<open>s.startsWith(pat)\<close>: the pattern occurs at index 0.\<close>

fun startsWith :: "string \<Rightarrow> string \<Rightarrow> bool" where
  "startsWith s [] = True"
| "startsWith [] (p # ps) = False"
| "startsWith (c # s) (p # ps) = (c = p \<and> startsWith s ps)"

text \<open>\<^verbatim>\<open>s.includes(pat)\<close>: the pattern occurs at some index.\<close>

fun str_includes :: "string \<Rightarrow> string \<Rightarrow> bool" where
  "str_includes [] pat = (pat = [])"
| "str_includes (c # s) pat = (startsWith (c # s) pat \<or> str_includes s pat)"

text \<open>
  \<^verbatim>\<open>s.replace(pat, rep)\<close> for a string \<^verbatim>\<open>pat\<close>: only the first (leftmost)
  occurrence of the pattern is replaced; the empty pattern occurs at index 0; a string
  without an occurrence is returned as it is. The replacement text used by the source,
  \<^verbatim>\<open>'.js'\<close>, has no \<^verbatim>\<open>$\<close> pattern, so it is inserted literally.
\<close>

fun replace_str :: "string \<Rightarrow> string \<Rightarrow> string \<Rightarrow> string" where
  "replace_str [] pat rep = (if pat = [] then rep else [])"
| "replace_str (c # s) pat rep =
     (if startsWith (c # s) pat then rep @ drop (length pat) (c # s)
      else c # replace_str s pat rep)"

text \<open>
  \<^verbatim>\<open>s.replace(/[^/]*\//, '')\<close>. The expression matches, at a given start index, the
  longest run of characters other than \<^verbatim>\<open>/\<close> followed by one \<^verbatim>\<open>/\<close>;
  \<open>match_segment\<close> returns what follows the match. The regular expression engine tries
  the start indices from left to right and the first match is removed.
\<close>

definition match_segment :: "string \<Rightarrow> string option" where
  "match_segment s =
     (case dropWhile (\<lambda>c. c \<noteq> slash) s of
        [] \<Rightarrow> None
      | _ # rest \<Rightarrow> Some rest)"

fun replace_segment :: "string \<Rightarrow> string" where
  "replace_segment [] = []"
| "replace_segment (c # s) =
     (case match_segment (c # s) of
        Some rest \<Rightarrow> rest
      | None \<Rightarrow> c # replace_segment s)"

section \<open>The POSIX functions of Node's \<^verbatim>\<open>path\<close> module\<close>

text \<open>
  \<^verbatim>\<open>path\<close> is Node's module, not code of the repository; the functions the source
  calls are modelled after their POSIX behaviour: the separator is \<^verbatim>\<open>/\<close>.

  \<^verbatim>\<open>path.basename(p)\<close>: the last portion of the path, trailing separators
  ignored.
\<close>

definition basename :: "string \<Rightarrow> string" where
  "basename p = rev (takeWhile (\<lambda>c. c \<noteq> slash) (dropWhile (\<lambda>c. c = slash) (rev p)))"

text \<open>
  \<^verbatim>\<open>path.extname(p)\<close>: from the last \<^verbatim>\<open>.\<close> of the last portion of the path to
  its end; the empty string when the last portion has no \<^verbatim>\<open>.\<close>, when its only
  \<^verbatim>\<open>.\<close> is its first character, and when it is \<^verbatim>\<open>..\<close>.
\<close>

definition extname :: "string \<Rightarrow> string" where
  "extname p =
     (let part = basename p;
          stem = rev (tl (dropWhile (\<lambda>c. c \<noteq> dot) (rev part)))
      in if dot \<in> set part \<and> stem \<noteq> [] \<and> part \<noteq> ''..''
         then drop (length stem) part
         else [])"

text \<open>
  \<^verbatim>\<open>path.dirname(p)\<close>: the path up to the separator before its last portion. The
  scan runs from the end down to index 1: trailing separators are skipped, then the last
  portion, and the path is cut at the separator found there. Without such a separator the
  result is \<^verbatim>\<open>/\<close> for an absolute path and \<^verbatim>\<open>.\<close> otherwise; a cut at index 1 of
  an absolute path gives \<^verbatim>\<open>//\<close>.
\<close>

definition dirname :: "string \<Rightarrow> string" where
  "dirname p =
     (case p of
        [] \<Rightarrow> ''.''
      | c # cs \<Rightarrow>
          (case dropWhile (\<lambda>x. x \<noteq> slash) (dropWhile (\<lambda>x. x = slash) (rev cs)) of
             [] \<Rightarrow> (if c = slash then ''/'' else ''.'')
           | _ # front \<Rightarrow>
               (if c = slash \<and> front = [] then ''//'' else c # rev front)))"

text \<open>The portions of a path between its separators, empty ones included.\<close>

fun split_slash :: "string \<Rightarrow> string list" where
  "split_slash [] = [[]]"
| "split_slash (c # s) =
     (if c = slash then [] # split_slash s
      else (case split_slash s of
              [] \<Rightarrow> [[c]]
            | seg # segs \<Rightarrow> (c # seg) # segs))"

fun join_slash :: "string list \<Rightarrow> string" where
  "join_slash [] = []"
| "join_slash [seg] = seg"
| "join_slash (seg # segs) = seg @ slash # join_slash segs"

text \<open>
  Node's \<^verbatim>\<open>normalizeString\<close>: empty portions and \<^verbatim>\<open>.\<close> are dropped; \<^verbatim>\<open>..\<close>
  removes the portion kept last, unless there is none or it is \<^verbatim>\<open>..\<close> itself, in
  which case \<^verbatim>\<open>..\<close> is kept when \<open>allowAboveRoot\<close> holds and dropped otherwise.
  \<open>kept\<close> is the list of the portions kept so far, the last one first.
\<close>

fun normalize_segments :: "bool \<Rightarrow> string list \<Rightarrow> string list \<Rightarrow> string list" where
  "normalize_segments allowAboveRoot kept [] = rev kept"
| "normalize_segments allowAboveRoot kept (seg # segs) =
     (if seg = [] \<or> seg = ''.'' then normalize_segments allowAboveRoot kept segs
      else if seg = ''..'' then
        (case kept of
           [] \<Rightarrow> normalize_segments allowAboveRoot (if allowAboveRoot then [''..''] else []) segs
         | k # ks \<Rightarrow>
             (if k = ''..''
              then normalize_segments allowAboveRoot
                     (if allowAboveRoot then ''..'' # kept else kept) segs
              else normalize_segments allowAboveRoot ks segs))
      else normalize_segments allowAboveRoot (seg # kept) segs)"

definition normalizeString :: "string \<Rightarrow> bool \<Rightarrow> string" where
  "normalizeString p allowAboveRoot =
     join_slash (normalize_segments allowAboveRoot [] (split_slash p))"

text \<open>
  \<^verbatim>\<open>path.normalize(p)\<close>: \<^verbatim>\<open>.\<close> for the empty path; otherwise the normalized
  portions, with the leading separator of an absolute path and a trailing separator kept.
\<close>

definition path_normalize :: "string \<Rightarrow> string" where
  "path_normalize p =
     (if p = [] then ''.''
      else
        (let isAbsolute = (hd p = slash);
             trailingSeparator = (last p = slash);
             q = normalizeString p (\<not> isAbsolute)
         in if q = [] then (if isAbsolute then ''/'' else if trailingSeparator then ''./'' else ''.'')
            else (if isAbsolute then [slash] else []) @ q @ (if trailingSeparator then [slash] else [])))"

text \<open>
  \<^verbatim>\<open>path.resolve(...args)\<close>: the arguments are taken from the last to the first, then
  the working directory, each non-empty one put in front of what was collected, until an
  absolute one has been added. \<open>resolve_collect\<close> takes them in that order and returns the
  collected path and whether it is absolute.
\<close>

fun resolve_collect :: "string list \<Rightarrow> string \<Rightarrow> string \<times> bool" where
  "resolve_collect [] resolvedPath = (resolvedPath, False)"
| "resolve_collect (p # ps) resolvedPath =
     (if p = [] then resolve_collect ps resolvedPath
      else if hd p = slash then (p @ slash # resolvedPath, True)
      else resolve_collect ps (p @ slash # resolvedPath))"

definition resolve :: "string \<Rightarrow> string list \<Rightarrow> string" where
  "resolve cwd args =
     (case resolve_collect (rev args @ [cwd]) [] of
        (resolvedPath, resolvedAbsolute) \<Rightarrow>
          (let q = normalizeString resolvedPath (\<not> resolvedAbsolute)
           in if resolvedAbsolute then slash # q
              else if q = [] then ''.'' else q))"

section \<open>Path transform resolver\<close>

text \<open>
  Lines 38 to 45 of \<^verbatim>\<open>transformFile\<close>: the first segment of the relative path is
  removed with the regular expression; a \<^verbatim>\<open>.vue\<close> or \<^verbatim>\<open>.svelte\<close> file gets
  \<^verbatim>\<open>.js\<close> appended, any other file has the text of its extension replaced by
  \<^verbatim>\<open>.js\<close> with \<^verbatim>\<open>String.prototype.replace\<close>.
\<close>

definition transformFilePath :: "string \<Rightarrow> string" where
  "transformFilePath fileRelativePath =
     (if extname fileRelativePath \<in> set [''.vue'', ''.svelte'']
      then replace_segment fileRelativePath @ ''.js''
      else replace_str (replace_segment fileRelativePath) (extname fileRelativePath) ''.js'')"

text \<open>
  The first segment of a relative path: the characters before its first separator, which
  the regular expression removes together with that separator.
\<close>

definition rootSegment :: "string \<Rightarrow> string" where
  "rootSegment p = takeWhile (\<lambda>c. c \<noteq> slash) p"

section \<open>Configuration values\<close>

text \<open>
  The configuration objects handed to the bundler are JavaScript values. An object is the
  list of its properties in insertion order. A function value is either a classifier of
  module ids (the \<^verbatim>\<open>external\<close> option) or another function, known by a name only.
\<close>

datatype jsfunction =
    Classifier "string \<Rightarrow> string option \<Rightarrow> bool option \<Rightarrow> bool option"
  | OtherFunction string

datatype jsval =
    JUndefined
  | JNull
  | JBool bool
  | JNum int
  | JStr string
  | JRegExp string
  | JFunction jsfunction
  | JArr "jsval list"
  | JObj "(string \<times> jsval) list"

type_synonym props = "(string \<times> jsval) list"

text \<open>\<^verbatim>\<open>v == null\<close>\<close>

fun nullish :: "jsval \<Rightarrow> bool" where
  "nullish JUndefined = True"
| "nullish JNull = True"
| "nullish _ = False"

text \<open>The truth value of \<^verbatim>\<open>v\<close> in a condition.\<close>

fun truthy :: "jsval \<Rightarrow> bool" where
  "truthy JUndefined = False"
| "truthy JNull = False"
| "truthy (JBool b) = b"
| "truthy (JNum n) = (n \<noteq> 0)"
| "truthy (JStr s) = (s \<noteq> [])"
| "truthy _ = True"

fun isArray :: "jsval \<Rightarrow> bool" where
  "isArray (JArr _) = True"
| "isArray _ = False"

fun isFunction :: "jsval \<Rightarrow> bool" where
  "isFunction (JFunction _) = True"
| "isFunction _ = False"

text \<open>\<^verbatim>\<open>obj[key]\<close> and \<^verbatim>\<open>obj[key] = v\<close>: a new key goes to the end.\<close>

fun get_prop :: "props \<Rightarrow> string \<Rightarrow> jsval" where
  "get_prop [] key = JUndefined"
| "get_prop ((k, v) # ps) key = (if k = key then v else get_prop ps key)"

fun set_prop :: "props \<Rightarrow> string \<Rightarrow> jsval \<Rightarrow> props" where
  "set_prop [] key v = [(key, v)]"
| "set_prop ((k, w) # ps) key v =
     (if k = key then (k, v) # ps else (k, w) # set_prop ps key v)"

text \<open>
  An object literal \<^verbatim>\<open>{ ...a, ...b }\<close>: the properties of \<open>b\<close> are assigned, in their
  order, to a copy of \<open>a\<close>. Spreading \<^verbatim>\<open>undefined\<close> adds nothing.
\<close>

definition spread :: "props \<Rightarrow> props \<Rightarrow> props" where
  "spread a b = fold (\<lambda>(key, v) acc. set_prop acc key v) b a"

definition spread_opt :: "props \<Rightarrow> props option \<Rightarrow> props" where
  "spread_opt a b = (case b of None \<Rightarrow> a | Some ps \<Rightarrow> spread a ps)"

section \<open>The bundler's \<^verbatim>\<open>mergeConfig\<close>\<close>

text \<open>
  \<^verbatim>\<open>mergeConfig\<close> is the bundler's function, not code of the repository. It copies
  the defaults and goes through the keys of the overrides: a \<^verbatim>\<open>null\<close> or
  \<^verbatim>\<open>undefined\<close> override is skipped; an override for a key the defaults leave
  \<^verbatim>\<open>null\<close> or \<^verbatim>\<open>undefined\<close> is taken; when one of the two values is an array the
  result is the array of the elements of both, the defaults' first; two objects are merged
  recursively; anything else is replaced by the override.

  Some fields are merged in a way of their own (\<^verbatim>\<open>alias\<close> at the root and under
  \<^verbatim>\<open>resolve\<close>, \<^verbatim>\<open>assetsInclude\<close> at the root, \<^verbatim>\<open>noExternal\<close> under
  \<^verbatim>\<open>ssr\<close> and \<^verbatim>\<open>resolve\<close>, \<^verbatim>\<open>plugins\<close> under \<^verbatim>\<open>worker\<close>). What is
  stored for them is left open: it is the parameter \<open>special\<close>, a function of the path,
  the key and the two values.
\<close>

fun arraify :: "jsval \<Rightarrow> jsval list" where
  "arraify (JArr xs) = xs"
| "arraify v = [v]"

definition special_field :: "string \<Rightarrow> string \<Rightarrow> bool" where
  "special_field rootPath key =
     ((key = ''alias'' \<and> (rootPath = ''resolve'' \<or> rootPath = ''''))
      \<or> (key = ''assetsInclude'' \<and> rootPath = '''')
      \<or> (key = ''noExternal'' \<and> (rootPath = ''ssr'' \<or> rootPath = ''resolve''))
      \<or> (key = ''plugins'' \<and> rootPath = ''worker''))"

definition child_path :: "string \<Rightarrow> string \<Rightarrow> string" where
  "child_path rootPath key = (if rootPath = [] then key else rootPath @ ''.'' @ key)"

type_synonym special_merge = "string \<Rightarrow> string \<Rightarrow> jsval \<Rightarrow> jsval \<Rightarrow> jsval"

function mergeConfigRecursively :: "special_merge \<Rightarrow> props \<Rightarrow> props \<Rightarrow> string \<Rightarrow> props" where
  "mergeConfigRecursively special defaults overrides rootPath =
     fold (\<lambda>(key, v) merged.
        if nullish v then merged
        else
          (let existing = get_prop merged key
           in if nullish existing then set_prop merged key v
              else if special_field rootPath key
                then set_prop merged key (special rootPath key existing v)
              else if isArray existing \<or> isArray v
                then set_prop merged key (JArr (arraify existing @ arraify v))
              else
                (case (existing, v) of
                   (JObj eprops, JObj vprops) \<Rightarrow>
                     set_prop merged key
                       (JObj (mergeConfigRecursively special eprops vprops (child_path rootPath key)))
                 | _ \<Rightarrow> set_prop merged key v)))
       overrides defaults"
  by pat_completeness auto
termination
proof -
  have smaller: "(key, JObj vprops) \<in> set ps \<Longrightarrow>
      size_list (size_prod (\<lambda>_. 0) size) vprops < size_list (size_prod (\<lambda>_. 0) size) ps"
    for key :: string and vprops ps :: props
    by (induction ps) auto
  show ?thesis
    by (relation "measure (\<lambda>(special, defaults, overrides, rootPath).
          size_list (size_prod (\<lambda>_. 0) size) overrides)")
      (auto dest: smaller)
qed

declare mergeConfigRecursively.simps [simp del]

text \<open>
  \<^verbatim>\<open>mergeConfig(defaults, overrides)\<close>, the root call. The overrides may be
  \<^verbatim>\<open>undefined\<close> (\<open>None\<close>): there is no key to go through then.
\<close>

definition mergeConfig :: "special_merge \<Rightarrow> props \<Rightarrow> props option \<Rightarrow> props" where
  "mergeConfig special defaults overrides =
     mergeConfigRecursively special defaults (case overrides of None \<Rightarrow> [] | Some ps \<Rightarrow> ps) []"

section \<open>External classifier\<close>

definition isVueTempFile :: "string \<Rightarrow> bool" where
  "isVueTempFile filePath = (str_includes filePath ''?vue'' \<and> str_includes filePath ''lang.'')"

definition isAsset :: "string \<Rightarrow> bool" where
  "isAsset ident =
     (str_includes ident ''.sass'' \<or> str_includes ident ''.scss'' \<or> str_includes ident ''.less''
      \<or> str_includes ident ''.css'' \<or> str_includes ident ''.svg'')"

definition isJson :: "string \<Rightarrow> bool" where
  "isJson ident = str_includes ident ''.json''"

text \<open>
  The option \<^verbatim>\<open>rollupOptionsExternal\<close>: absent, a function of the module id, the
  importer, the resolved flag and the input file's relative path that returns a boolean,
  \<^verbatim>\<open>null\<close> or nothing (\<open>None\<close>), or a name, a pattern or an array of them, handed
  to the bundler as it is.
\<close>

datatype rollup_options_external =
    ExternalUndefined
  | ExternalFunction "string \<Rightarrow> string option \<Rightarrow> bool option \<Rightarrow> string \<Rightarrow> bool option"
  | ExternalValue jsval

text \<open>
  The function built at lines 52 to 82 when the option is absent or a function; it is
  installed as \<^verbatim>\<open>rollupOptions.external\<close> (line 104). \<open>ident\<close> is its
  parameter \<^verbatim>\<open>id\<close> and \<open>cwd\<close> is \<^verbatim>\<open>process.cwd()\<close>.
\<close>

definition externalFunction ::
  "string \<Rightarrow> string \<Rightarrow> rollup_options_external \<Rightarrow> string \<Rightarrow> string option \<Rightarrow> bool option \<Rightarrow> bool option" where
  "externalFunction cwd fileRelativePath rollupOptionsExternal ident importer isResolved =
     (case rollupOptionsExternal of
        ExternalFunction f \<Rightarrow> f ident importer isResolved fileRelativePath
      | _ \<Rightarrow>
          (if isJson ident \<or> isAsset ident \<or> isVueTempFile ident
              \<or> path_normalize ident = resolve cwd [cwd, fileRelativePath]
           then Some False
           else Some True))"

section \<open>Options\<close>

text \<open>
  \<^verbatim>\<open>Format\<close> (line 181): a bare tag or a tag with its output directory.
  \<^verbatim>\<open>CreateBuildConfigOptions\<close> (lines 85 to 88) is what one build unit is made from.
\<close>

datatype format_tag = Cjs | Es

fun format_name :: "format_tag \<Rightarrow> string" where
  "format_name Cjs = ''cjs''"
| "format_name Es = ''es''"

datatype format_spec = FormatTag format_tag | FormatWithDir format_tag string

record CreateBuildConfigOptions =
  outputDir :: string
  format :: format_tag

text \<open>An option that is a value or a function of a path (lines 36 and 47 to 48).\<close>

datatype 'a value_or_function = Value 'a | Function "string \<Rightarrow> 'a"

fun resolve_option :: "'a value_or_function \<Rightarrow> string \<Rightarrow> 'a" where
  "resolve_option (Value v) path = v"
| "resolve_option (Function f) path = f path"

text \<open>
  The fields of \<^verbatim>\<open>BuildFilesOptions\<close> that \<^verbatim>\<open>transformFile\<close> reads. An absent
  field is \<open>None\<close>. The callbacks are not fields of the record: their calls are the events
  of the process state below.
\<close>

record BuildFilesOptions =
  buildOptions :: "props option value_or_function"
  rollupOptionsOutput :: "props option value_or_function"
  rollupOptionsExternal :: rollup_options_external
  viteConfig :: "props option"
  pluginHooks :: "props option"
  formats :: "format_spec list option"
  watch :: "jsval option"

text \<open>
  The environment of the functions nested in \<^verbatim>\<open>transformFile\<close>: the working
  directory, the bundler's special merges, the input file and the options.
\<close>

record transform_env =
  cwd :: string
  special :: special_merge
  fileRelativePath :: string
  options :: BuildFilesOptions

section \<open>Config synthesizer\<close>

text \<open>
  \<^verbatim>\<open>lastRollupOptionsExternal\<close> (lines 49 to 83): the classifier when the option is
  absent or a function, the option's value otherwise.
\<close>

definition lastRollupOptionsExternal :: "transform_env \<Rightarrow> jsval" where
  "lastRollupOptionsExternal env =
     (case rollupOptionsExternal (options env) of
        ExternalValue v \<Rightarrow> v
      | other \<Rightarrow>
          JFunction (Classifier (externalFunction (cwd env) (fileRelativePath env) other)))"

text \<open>The output entry of the base configuration (lines 106 to 114).\<close>

definition outputEntry :: "transform_env \<Rightarrow> CreateBuildConfigOptions \<Rightarrow> props" where
  "outputEntry env opts =
     spread
       (spread_opt
          [(''entryFileNames'', JStr (basename (transformFilePath (fileRelativePath env)))),
           (''format'', JStr (format_name (format opts))),
           (''indent'', JBool False),
           (''assetFileNames'', JStr ''[name].[ext]''),
           (''inlineDynamicImports'', JBool True)]
          (resolve_option (rollupOptionsOutput (options env))
             (transformFilePath (fileRelativePath env))))
       [(''dir'', JStr (dirname (resolve (cwd env)
                          [outputDir opts, transformFilePath (fileRelativePath env)])))]"

text \<open>The first argument of \<^verbatim>\<open>mergeConfig\<close> (lines 99 to 125).\<close>

definition baseBuildConfig :: "transform_env \<Rightarrow> CreateBuildConfigOptions \<Rightarrow> props" where
  "baseBuildConfig env opts =
     [(''assetsDir'', JStr ''./''),
      (''cssCodeSplit'', JBool True),
      (''emptyOutDir'', JBool False),
      (''rollupOptions'', JObj
         [(''external'', lastRollupOptionsExternal env),
          (''output'', JArr [JObj (outputEntry env opts)])]),
      (''lib'', JObj
         [(''formats'', JArr [JStr ''cjs'']),
          (''entry'', JStr (resolve (cwd env) [cwd env, fileRelativePath env])),
          (''name'', JStr ''noop'')]),
      (''minify'', JBool False),
      (''watch'', (case watch (options env) of None \<Rightarrow> JNull | Some w \<Rightarrow> w))]"

definition buildConfig :: "transform_env \<Rightarrow> CreateBuildConfigOptions \<Rightarrow> props" where
  "buildConfig env opts =
     mergeConfig (special env) (baseBuildConfig env opts)
       (resolve_option (buildOptions (options env)) (fileRelativePath env))"

text \<open>
  \<^verbatim>\<open>lastPluginHooks\<close> (lines 91 to 96): the function-valued properties of
  \<^verbatim>\<open>pluginHooks\<close>.
\<close>

definition lastPluginHooks :: "transform_env \<Rightarrow> props" where
  "lastPluginHooks env =
     fold (\<lambda>(cur, v) acc. if isFunction v then set_prop acc cur v else acc)
       (case pluginHooks (options env) of None \<Rightarrow> [] | Some hooks \<Rightarrow> hooks) []"

text \<open>
  \<^verbatim>\<open>createBuildConfig\<close> (lines 89 to 144). \<^verbatim>\<open>viteConfig.plugins\<close> is an array by
  its type.
\<close>

definition createBuildConfig :: "transform_env \<Rightarrow> CreateBuildConfigOptions \<Rightarrow> jsval" where
  "createBuildConfig env opts =
     JObj (spread
       (case viteConfig (options env) of None \<Rightarrow> [] | Some vc \<Rightarrow> vc)
       [(''plugins'', JArr
           (JObj (spread [(''name'', JStr ''vite:build-file-transform''), (''enforce'', JStr ''pre'')]
                    (lastPluginHooks env))
            # (case viteConfig (options env) of
                 None \<Rightarrow> []
               | Some vc \<Rightarrow>
                   (if truthy (get_prop vc ''plugins'') then arraify (get_prop vc ''plugins'')
                    else [])))),
        (''mode'', JStr ''production''),
        (''configFile'', JBool False),
        (''logLevel'', JStr ''error''),
        (''build'', JObj (buildConfig env opts))])"

text \<open>Reading the synthesized configuration: \<^verbatim>\<open>config.build.rollupOptions.output\<close>.\<close>

fun get_path :: "jsval \<Rightarrow> string list \<Rightarrow> jsval" where
  "get_path v [] = v"
| "get_path (JObj ps) (key # keys) = get_path (get_prop ps key) keys"
| "get_path _ (key # keys) = JUndefined"

definition configOutputs :: "jsval \<Rightarrow> jsval list" where
  "configOutputs config = arraify (get_path config [''build'', ''rollupOptions'', ''output''])"

definition outputDirOf :: "jsval \<Rightarrow> jsval" where
  "outputDirOf entry = get_path entry [''dir'']"

section \<open>Single-file build driver\<close>

text \<open>
  The bundler's \<^verbatim>\<open>build\<close> is a parameter: from a configuration it gives an error (the
  promise is rejected) or its output, which is an array of outputs, one output or a
  watcher. An output holds its array of chunks and assets; \<open>outputFilePath\<close> is the
  property that \<^verbatim>\<open>lastBuild\<close> adds.
\<close>

datatype build_error = BuildError string

record output_item =
  fileName :: string
  outputFilePath :: "string option"

datatype rollup_output = RollupOutput "output_item list"

fun output_of :: "rollup_output \<Rightarrow> output_item list" where
  "output_of (RollupOutput items) = items"

datatype build_result =
    OutputArray "rollup_output list"
  | SingleOutput rollup_output
  | Watcher

type_synonym bundler = "jsval \<Rightarrow> build_error + build_result"

text \<open>The destination written into the output (line 154).\<close>

definition destination :: "transform_env \<Rightarrow> CreateBuildConfigOptions \<Rightarrow> string" where
  "destination env opts = outputDir opts @ ''/'' @ transformFilePath (fileRelativePath env)"

definition annotate :: "string \<Rightarrow> build_result \<Rightarrow> build_result" where
  "annotate path result =
     (case result of
        OutputArray outs \<Rightarrow>
          OutputArray
            (map (\<lambda>out. RollupOutput (map (\<lambda>oi. oi\<lparr>outputFilePath := Some path\<rparr>) (output_of out)))
               outs)
      | other \<Rightarrow> other)"

text \<open>\<^verbatim>\<open>lastBuild\<close> (lines 146 to 161).\<close>

definition lastBuild ::
  "bundler \<Rightarrow> transform_env \<Rightarrow> CreateBuildConfigOptions \<Rightarrow> build_error + build_result" where
  "lastBuild bundle env opts =
     (case bundle (createBuildConfig env opts) of
        Inl err \<Rightarrow> Inl err
      | Inr result \<Rightarrow> Inr (annotate (destination env opts) result))"

text \<open>
  The callback of \<^verbatim>\<open>formats.map\<close> (lines 165 to 171): a bare tag becomes the pair of
  the tag and the directory of the same name. The default of \<^verbatim>\<open>formats\<close> is
  \<^verbatim>\<open>['cjs', 'es']\<close> (line 32).
\<close>

fun unitOptions :: "format_spec \<Rightarrow> CreateBuildConfigOptions" where
  "unitOptions (FormatTag tag) = \<lparr>outputDir = format_name tag, format = tag\<rparr>"
| "unitOptions (FormatWithDir tag dir) = \<lparr>outputDir = dir, format = tag\<rparr>"

definition lastFormats :: "transform_env \<Rightarrow> format_spec list" where
  "lastFormats env =
     (case formats (options env) of
        None \<Rightarrow> [FormatTag Cjs, FormatTag Es]
      | Some fs \<Rightarrow> fs)"

definition buildUnits :: "bundler \<Rightarrow> transform_env \<Rightarrow> (build_error + build_result) list" where
  "buildUnits bundle env = map (\<lambda>f. lastBuild bundle env (unitOptions f)) (lastFormats env)"

text \<open>
  \<^verbatim>\<open>Promise.all\<close>: the results of all the promises, or a rejection when one of them
  is rejected (the first one in the list stands for it).
\<close>

fun promise_all :: "('e + 'a) list \<Rightarrow> 'e + 'a list" where
  "promise_all [] = Inr []"
| "promise_all (Inl err # rs) = Inl err"
| "promise_all (Inr v # rs) = (case promise_all rs of Inl err \<Rightarrow> Inl err | Inr vs \<Rightarrow> Inr (v # vs))"

section \<open>Process state and batch orchestrator\<close>

text \<open>
  The module's variable \<^verbatim>\<open>incrementCount\<close> (line 9), and the observable calls in
  their order: the callbacks \<^verbatim>\<open>startBuild\<close>, \<^verbatim>\<open>singleFileBuildSuccessCallback\<close>
  and \<^verbatim>\<open>endBuild\<close> with their arguments, and the red line written by
  \<^verbatim>\<open>console.error\<close> (its text is left out). The callbacks are taken to return
  without raising.
\<close>

datatype event =
    StartBuild nat
  | SingleFileBuildSuccess nat string
  | PartialErrorLine
  | EndBuild nat

record process_state =
  incrementCount :: nat
  events :: "event list"

definition emit :: "event \<Rightarrow> process_state \<Rightarrow> process_state" where
  "emit e st = st\<lparr>events := events st @ [e]\<rparr>"

text \<open>
  \<^verbatim>\<open>transformFile\<close> (lines 24 to 179) from the point where all its builds are
  settled: a rejected build rejects the call and leaves the state as it is; otherwise the
  counter is incremented, the callback is called with the new count, and the path is
  returned.
\<close>

definition transformFile ::
  "bundler \<Rightarrow> transform_env \<Rightarrow> process_state \<Rightarrow> (build_error + string) \<times> process_state" where
  "transformFile bundle env st =
     (case promise_all (buildUnits bundle env) of
        Inl err \<Rightarrow> (Inl err, st)
      | Inr outs \<Rightarrow>
          (let st1 = st\<lparr>incrementCount := incrementCount st + 1\<rparr>;
               st2 = emit (SingleFileBuildSuccess (incrementCount st1) (fileRelativePath env)) st1
           in (Inr (fileRelativePath env), st2)))"

text \<open>
  Modelled from the spec: the task pool \<^verbatim>\<open>runInTaskPool\<close> is a library of its own,
  known here by its contract: every item is given to the worker, a failure of one item is
  recorded and neither raised nor allowed to stop the other items, and the result says
  whether some item failed. The workers change the state only when their builds are
  settled, so a run of the pool is the run of the workers in the order in which the items
  complete; \<open>completion\<close> is that order, a rearrangement of the submitted items.
\<close>

fun runInTaskPool ::
  "'a list \<Rightarrow> ('a \<Rightarrow> process_state \<Rightarrow> ('e + 'b) \<times> process_state) \<Rightarrow> process_state \<Rightarrow> bool \<times> process_state" where
  "runInTaskPool [] worker st = (False, st)"
| "runInTaskPool (item # completion) worker st =
     (case worker item st of
        (Inl err, st1) \<Rightarrow> (case runInTaskPool completion worker st1 of (_, st2) \<Rightarrow> (True, st2))
      | (Inr done, st1) \<Rightarrow> runInTaskPool completion worker st1)"

text \<open>
  \<^verbatim>\<open>buildFiles\<close> (lines 275 to 308) from line 290 on. \<open>srcFilePaths\<close> is what the glob
  matcher returned, \<open>completion\<close> the order in which the pool completes these files, and
  \<open>mk_env\<close> is the environment of \<^verbatim>\<open>transformFile\<close> for a file and the options that
  are left, \<^verbatim>\<open>restOptions\<close>.
\<close>

definition mk_env :: "string \<Rightarrow> special_merge \<Rightarrow> BuildFilesOptions \<Rightarrow> string \<Rightarrow> transform_env" where
  "mk_env dir sp restOptions file =
     \<lparr>cwd = dir, special = sp, fileRelativePath = file, options = restOptions\<rparr>"

definition buildFiles ::
  "bundler \<Rightarrow> string \<Rightarrow> special_merge \<Rightarrow> BuildFilesOptions \<Rightarrow> string list \<Rightarrow> string list
     \<Rightarrow> process_state \<Rightarrow> process_state" where
  "buildFiles bundle dir sp restOptions srcFilePaths completion st =
     (let st1 = st\<lparr>incrementCount := 0\<rparr>;
          st2 = emit (StartBuild (length srcFilePaths)) st1
      in case runInTaskPool completion
                (\<lambda>file. transformFile bundle (mk_env dir sp restOptions file)) st2 of
           (hasPartialError, st3) \<Rightarrow>
             (let st4 = (if hasPartialError then emit PartialErrorLine st3 else st3);
                  st5 = emit (EndBuild (incrementCount st4)) st4
              in st5\<lparr>incrementCount := 0\<rparr>))"

section \<open>Notions used in the statements\<close>

text \<open>All the format builds of a file resolve.\<close>

definition resolves :: "bundler \<Rightarrow> transform_env \<Rightarrow> bool" where
  "resolves bundle env =
     (case promise_all (buildUnits bundle env) of Inl err \<Rightarrow> False | Inr outs \<Rightarrow> True)"

text \<open>The calls of the per-file callback for a list of files, counted on from \<open>n\<close>.\<close>

fun success_events :: "nat \<Rightarrow> string list \<Rightarrow> event list" where
  "success_events n [] = []"
| "success_events n (file # files) =
     SingleFileBuildSuccess (Suc n) file # success_events (Suc n) files"

text \<open>
  The type \<^verbatim>\<open>BuildOptions\<close> of the option \<^verbatim>\<open>buildOptions\<close> (line 224): its
  \<^verbatim>\<open>rollupOptions\<close>, when given, is an object.
\<close>

fun isObject :: "jsval \<Rightarrow> bool" where
  "isObject (JObj _) = True"
| "isObject _ = False"

definition rollupOptionsTyped :: "props option \<Rightarrow> bool" where
  "rollupOptionsTyped overrides =
     (case overrides of
        None \<Rightarrow> True
      | Some ps \<Rightarrow>
          list_all (\<lambda>(key, v). if key = ''rollupOptions'' then nullish v \<or> isObject v else True) ps)"

text \<open>
  A portion of a normalized absolute path: not empty, not \<^verbatim>\<open>.\<close>, not \<^verbatim>\<open>..\<close>
  and without a separator.
\<close>

definition clean_segment :: "string \<Rightarrow> bool" where
  "clean_segment seg = (seg \<noteq> [] \<and> seg \<noteq> ''.'' \<and> seg \<noteq> ''..'' \<and> slash \<notin> set seg)"

text \<open>
  The output entries that the caller's \<^verbatim>\<open>buildOptions\<close> give under
  \<^verbatim>\<open>rollupOptions.output\<close>, in their order: an array gives its elements, any other
  value that is not \<^verbatim>\<open>null\<close> or \<^verbatim>\<open>undefined\<close> gives itself.
\<close>

definition outputOverrides :: "props \<Rightarrow> jsval list" where
  "outputOverrides ro =
     concat (map (\<lambda>(key, v). if key = ''output'' \<and> \<not> nullish v then arraify v else []) ro)"

definition callerOutputs :: "props option \<Rightarrow> jsval list" where
  "callerOutputs overrides =
     (case overrides of
        None \<Rightarrow> []
      | Some ps \<Rightarrow>
          concat (map (\<lambda>(key, v).
            if key = ''rollupOptions''
            then (case v of JObj ro \<Rightarrow> outputOverrides ro | other \<Rightarrow> [])
            else []) ps))"

section \<open>Example inputs\<close>

text \<open>
  The options \<^verbatim>\<open>{}\<close>; options whose \<^verbatim>\<open>buildOptions\<close> give an output entry with a
  directory of their own and whose \<^verbatim>\<open>rollupOptionsOutput\<close> is a function that sets
  \<^verbatim>\<open>dir\<close>; the formats \<^verbatim>\<open>["cjs", {format: "es", outDir: "esm"}]\<close>.
\<close>

definition emptyOptions :: BuildFilesOptions where
  "emptyOptions =
     \<lparr>buildOptions = Value None, rollupOptionsOutput = Value None,
      rollupOptionsExternal = ExternalUndefined, viteConfig = None, pluginHooks = None,
      formats = None, watch = None\<rparr>"

definition redirectOptions :: BuildFilesOptions where
  "redirectOptions =
     emptyOptions
       \<lparr>buildOptions := Value (Some
          [(''rollupOptions'', JObj [(''output'', JArr [JObj [(''dir'', JStr ''elsewhere'')]])])]),
        rollupOptionsOutput :=
          Function (\<lambda>path. Some [(''dir'', JStr ''ignored''), (''banner'', JStr path)])\<rparr>"

definition esmOptions :: BuildFilesOptions where
  "esmOptions = emptyOptions\<lparr>formats := Some [FormatTag Cjs, FormatWithDir Es ''esm'']\<rparr>"

text \<open>
  An environment in the working directory \<^verbatim>\<open>/proj\<close>, where a special merge takes the
  override.
\<close>

definition takeOverride :: special_merge where
  "takeOverride rootPath key existing v = v"

definition exampleEnv :: "BuildFilesOptions \<Rightarrow> string \<Rightarrow> transform_env" where
  "exampleEnv opts file = mk_env ''/proj'' takeOverride opts file"

text \<open>
  A bundler that returns one output with one chunk for every configuration, and one that
  rejects the configuration of one build unit, the one whose entry is the given file and
  whose only output entry has the given format, and resolves every other unit.
\<close>

definition okBundler :: bundler where
  "okBundler config =
     Inr (OutputArray [RollupOutput [\<lparr>fileName = ''index.js'', outputFilePath = None\<rparr>]])"

definition rejectingBundler :: "string \<Rightarrow> string \<Rightarrow> bundler" where
  "rejectingBundler entry fmt config =
     (if get_path config [''build'', ''lib'', ''entry''] = JStr entry
         \<and> map (\<lambda>e. get_path e [''format'']) (configOutputs config) = [JStr fmt]
      then Inl (BuildError ''compile error'')
      else okBundler config)"

section \<open>Strings and paths: basic facts\<close>

lemma extname_examples:
  "extname ''index.html'' = ''.html''"
  "extname ''index.coffee.md'' = ''.md''"
  "extname ''index.'' = ''.''"
  "extname ''index'' = []"
  "extname ''.index'' = []"
  "extname ''.index.md'' = ''.md''"
  "extname ''..'' = []"
  by (simp_all add: extname_def basename_def slash_def dot_def)

lemma node_path_examples:
  "basename ''/foo/bar/baz/asdf/quux.html'' = ''quux.html''"
  "dirname ''/foo/bar/baz/asdf/quux'' = ''/foo/bar/baz/asdf''"
  "path_normalize ''/foo/bar//baz/asdf/quux/..'' = ''/foo/bar/baz/asdf''"
  "resolve ''/home/myself/node'' [''/foo/bar'', ''./baz''] = ''/foo/bar/baz''"
  "resolve ''/home/myself/node'' [''/foo/bar'', ''/tmp/file/''] = ''/tmp/file''"
  "resolve ''/home/myself/node'' [''wwwroot'', ''static_files/png/'', ''../gif/image.gif'']
     = ''/home/myself/node/wwwroot/static_files/gif/image.gif''"
  by (simp_all add: basename_def dirname_def path_normalize_def resolve_def normalizeString_def
      slash_def)

lemma startsWith_append: "startsWith (pat @ s) pat"
  by (induction pat) auto

lemma startsWith_iff: "startsWith s pat \<longleftrightarrow> (\<exists>t. s = pat @ t)"
  by (induction s pat rule: startsWith.induct) auto

lemma str_includes_append: "str_includes (pre @ pat @ post) pat"
proof (induction pre)
  case Nil
  show ?case
  proof (cases "pat @ post")
    case Nil
    then show ?thesis by simp
  next
    case (Cons a list)
    have "startsWith (pat @ post) pat" by (rule startsWith_append)
    with Cons show ?thesis by simp
  qed
next
  case (Cons c pre)
  then show ?case by simp
qed

lemma str_includes_suffix: "str_includes (pre @ pat) pat"
  using str_includes_append [of pre pat "[]"] by simp

lemma str_includes_iff: "str_includes s pat \<longleftrightarrow> (\<exists>pre post. s = pre @ pat @ post)"
proof
  show "str_includes s pat \<Longrightarrow> \<exists>pre post. s = pre @ pat @ post"
  proof (induction s)
    case Nil
    then show ?case by simp
  next
    case (Cons c s)
    show ?case
    proof (cases "startsWith (c # s) pat")
      case True
      then obtain t where "c # s = pat @ t" by (auto simp: startsWith_iff)
      then have "c # s = [] @ pat @ t" by simp
      then show ?thesis by blast
    next
      case False
      with Cons.prems have "str_includes s pat" by simp
      with Cons.IH obtain pre post where "s = pre @ pat @ post" by blast
      then have "c # s = (c # pre) @ pat @ post" by simp
      then show ?thesis by blast
    qed
  qed
next
  show "\<exists>pre post. s = pre @ pat @ post \<Longrightarrow> str_includes s pat"
    by (auto simp: str_includes_append)
qed

lemma replace_str_empty_pattern: "replace_str s [] rep = rep @ s"
  by (cases s) simp_all

lemma replace_str_absent: "\<not> str_includes s pat \<Longrightarrow> replace_str s pat rep = s"
  by (induction s) (auto split: if_splits)

lemma match_segment_no_slash: "slash \<notin> set s \<Longrightarrow> match_segment s = None"
proof -
  assume "slash \<notin> set s"
  then have "dropWhile (\<lambda>c. c \<noteq> slash) s = []"
    by auto
  then show ?thesis unfolding match_segment_def by (simp only: list.case)
qed

lemma match_segment_root: "slash \<notin> set root \<Longrightarrow> match_segment (root @ slash # rest) = Some rest"
proof -
  assume "slash \<notin> set root"
  then have "dropWhile (\<lambda>c. c \<noteq> slash) (root @ slash # rest) = slash # rest"
    by (induction root) auto
  then show ?thesis by (simp add: match_segment_def)
qed

lemma replace_segment_no_slash: "slash \<notin> set s \<Longrightarrow> replace_segment s = s"
  by (induction s) (simp_all add: match_segment_no_slash)

lemma replace_segment_root: "slash \<notin> set root \<Longrightarrow> replace_segment (root @ slash # rest) = rest"
  using match_segment_root [of root rest]
  by (cases "root @ slash # rest") simp_all

lemmas path_eval = transformFilePath_def extname_def basename_def match_segment_def
  slash_def dot_def rootSegment_def

lemmas node_path_eval = resolve_def normalizeString_def dirname_def path_normalize_def slash_def

lemma math_js: "transformFilePath ''src/util/math.ts'' = ''util/math.js''"
  by (simp add: path_eval)

lemma resolved_dir: "dirname (resolve ''/proj'' [''cjs'', ''util/math.js'']) = ''/proj/cjs/util''"
  by (simp add: node_path_eval)

text \<open>A single-file component keeps its extension in front of \<^verbatim>\<open>.js\<close>.\<close>

lemma vue_component_example:
  "transformFilePath ''src/Comp.vue'' = ''Comp.vue.js''"
  "basename (transformFilePath ''src/Comp.vue'') = ''Comp.vue.js''"
  by (simp_all add: path_eval)

section \<open>Path transform resolver: the output path\<close>

text \<open>
  Claim C10. A path whose \<^verbatim>\<open>path.extname\<close> is the empty string is not a
  single-file-component path, and the replacement of its extension puts \<^verbatim>\<open>.js\<close> in
  front of the stripped path: replacing the empty pattern inserts at index 0.
  \<^verbatim>\<open>src/Makefile\<close> resolves to \<^verbatim>\<open>.jsMakefile\<close>.
\<close>

theorem extensionless_path_gets_js_prefix:
  "extname p = [] \<Longrightarrow> transformFilePath p = ''.js'' @ replace_segment p"
  by (simp add: transformFilePath_def replace_str_empty_pattern)

theorem extensionless_path_gets_js_prefix_witness:
  "extname ''src/Makefile'' = [] \<and> transformFilePath ''src/Makefile'' = ''.jsMakefile''"
proof -
  have e: "extname ''src/Makefile'' = []" by (simp add: path_eval)
  have "replace_segment ''src/Makefile'' = ''Makefile''" by (simp add: path_eval)
  with extensionless_path_gets_js_prefix [OF e] e show ?thesis by simp
qed

text \<open>
  Claim C4. The claim says that the extension itself is replaced, not an earlier
  occurrence of the same text. The code replaces the first occurrence of the extension's
  text in the stripped path: \<^verbatim>\<open>src/my.tsconfig.ts\<close> has the extension \<^verbatim>\<open>.ts\<close> and
  resolves to \<^verbatim>\<open>my.jsconfig.ts\<close>, not to \<^verbatim>\<open>my.tsconfig.js\<close>.
\<close>

theorem extension_replace_hits_earlier_occurrence:
  "extname ''src/my.tsconfig.ts'' = ''.ts''
   \<and> transformFilePath ''src/my.tsconfig.ts'' = ''my.jsconfig.ts''
   \<and> transformFilePath ''src/my.tsconfig.ts'' \<noteq> ''my.tsconfig.js''"
  by (simp add: path_eval)

text \<open>
  Where the text of the extension occurs in the stripped path only at its end, the
  extension is what is replaced.
\<close>

lemma extension_replaced_when_unique:
  assumes "extname p \<notin> set [''.vue'', ''.svelte'']"
    and "replace_segment p = stem @ extname p"
    and "\<forall>pre post. stem @ extname p = pre @ extname p @ post \<longrightarrow> pre = stem"
  shows "transformFilePath p = stem @ ''.js''"
proof -
  have "replace_str (stem @ e) e rep = stem @ rep"
    if "\<forall>pre post. stem @ e = pre @ e @ post \<longrightarrow> pre = stem" for e rep
    using that
  proof (induction stem)
    case Nil
    show ?case
    proof (cases e)
      case Nil
      then show ?thesis by simp
    next
      case (Cons a es)
      have "startsWith (e @ []) e" by (rule startsWith_append)
      with Cons show ?thesis by simp
    qed
  next
    case (Cons c stem)
    have no: "\<not> startsWith (c # stem @ e) e"
    proof
      assume "startsWith (c # stem @ e) e"
      then obtain t where "c # stem @ e = e @ t" by (auto simp: startsWith_iff)
      then have "(c # stem) @ e = [] @ e @ t" by simp
      with Cons.prems have "[] = c # stem" by blast
      then show False by simp
    qed
    have "\<forall>pre post. stem @ e = pre @ e @ post \<longrightarrow> pre = stem"
    proof (intro allI impI)
      fix pre post
      assume "stem @ e = pre @ e @ post"
      then have "(c # stem) @ e = (c # pre) @ e @ post" by simp
      with Cons.prems have "c # pre = c # stem" by blast
      then show "pre = stem" by simp
    qed
    from Cons.IH [OF this] no show ?case by simp
  qed
  from this [OF assms(3)] assms(1,2) show ?thesis
    by (simp add: transformFilePath_def)
qed

text \<open>
  Claim C5, as stated, fails: \<^verbatim>\<open>src/src/a.ts\<close> resolves to \<^verbatim>\<open>src/a.js\<close>, which
  contains the root segment \<^verbatim>\<open>src\<close>.
\<close>

theorem output_contains_root_segment:
  "rootSegment ''src/src/a.ts'' = ''src''
   \<and> transformFilePath ''src/src/a.ts'' = ''src/a.js''
   \<and> str_includes (transformFilePath ''src/src/a.ts'') (rootSegment ''src/src/a.ts'')"
  by (simp add: path_eval)

text \<open>
  Claim C5, amended. For a path \<open>root/rest\<close>, where \<open>root\<close> is the segment before the
  first separator, the root segment and its separator are removed exactly once: the output
  path is \<open>rest\<close> with \<^verbatim>\<open>.js\<close> appended (single-file components) or \<open>rest\<close> with
  the first occurrence of the text of the extension replaced by \<^verbatim>\<open>.js\<close>. Nothing
  is said about further occurrences of the root segment in the output.
\<close>

theorem first_segment_removed_once:
  "slash \<notin> set root \<Longrightarrow>
     rootSegment (root @ slash # rest) = root
     \<and> transformFilePath (root @ slash # rest) =
         (if extname (root @ slash # rest) \<in> set [''.vue'', ''.svelte'']
          then rest @ ''.js''
          else replace_str rest (extname (root @ slash # rest)) ''.js'')"
proof -
  assume root: "slash \<notin> set root"
  then have "takeWhile (\<lambda>c. c \<noteq> slash) (root @ slash # rest) = root"
    by (induction root) auto
  with root show ?thesis
    by (simp add: transformFilePath_def replace_segment_root rootSegment_def)
qed

theorem first_segment_removed_once_witness:
  "slash \<notin> set ''src''
   \<and> rootSegment ''src/util/math.ts'' = ''src''
   \<and> transformFilePath ''src/util/math.ts'' = ''util/math.js''"
  using first_segment_removed_once [of "''src''" "''util/math.ts''"]
  by (simp add: path_eval)

section \<open>Normalized paths\<close>

text \<open>
  \<^verbatim>\<open>path.resolve\<close> from an absolute working directory gives a path that
  \<^verbatim>\<open>path.normalize\<close> leaves as it is.
\<close>

lemma split_slash_nonempty: "split_slash p \<noteq> []"
  by (induction p) (auto split: list.splits)

lemma split_slash_no_slash: "seg \<in> set (split_slash p) \<Longrightarrow> slash \<notin> set seg"
  by (induction p arbitrary: seg) (auto split: list.splits if_splits)

lemma split_slash_join:
  "segs \<noteq> [] \<Longrightarrow> \<forall>seg \<in> set segs. slash \<notin> set seg \<Longrightarrow> split_slash (join_slash segs) = segs"
proof (induction segs rule: join_slash.induct)
  case 1
  then show ?case by simp
next
  case (2 seg)
  then show ?case by (induction seg) (auto split: list.splits)
next
  case (3 seg v va)
  then have IH: "split_slash (join_slash (v # va)) = v # va" by simp
  from 3(3) have "slash \<notin> set seg" by simp
  then have "split_slash (seg @ slash # rest) = seg # split_slash rest" for rest
    using split_slash_nonempty [of rest]
    by (induction seg) (auto split: list.splits)
  with IH show ?case by simp
qed

lemma normalize_segments_step:
  "normalize_segments False kept (seg # segs) =
     normalize_segments False
       (if seg = [] \<or> seg = ''.'' then kept
        else if seg = ''..'' then (case kept of [] \<Rightarrow> [] | k # ks \<Rightarrow> if k = ''..'' then kept else ks)
        else seg # kept) segs"
  by (simp split: list.splits)

lemma normalize_segments_clean_out:
  "\<forall>k \<in> set kept. clean_segment k \<Longrightarrow> \<forall>seg \<in> set segs. slash \<notin> set seg \<Longrightarrow>
   \<forall>seg \<in> set (normalize_segments False kept segs). clean_segment seg"
proof (induction segs arbitrary: kept)
  case Nil
  then show ?case by simp
next
  case (Cons seg segs)
  let ?kept = "if seg = [] \<or> seg = ''.'' then kept
        else if seg = ''..'' then (case kept of [] \<Rightarrow> [] | k # ks \<Rightarrow> if k = ''..'' then kept else ks)
        else seg # kept"
  have "\<forall>k \<in> set ?kept. clean_segment k"
  proof (cases "seg = [] \<or> seg = ''.''")
    case True
    with Cons.prems(1) show ?thesis by simp
  next
    case plain: False
    show ?thesis
    proof (cases "seg = ''..''")
      case True
      with plain Cons.prems(1) show ?thesis
        by (cases kept) (auto simp: clean_segment_def)
    next
      case False
      with plain Cons.prems have "clean_segment seg"
        by (simp add: clean_segment_def)
      with plain False Cons.prems(1) show ?thesis by simp
    qed
  qed
  moreover from Cons.prems have "\<forall>seg \<in> set segs. slash \<notin> set seg"
    by simp
  ultimately have "\<forall>seg \<in> set (normalize_segments False ?kept segs). clean_segment seg"
    by (rule Cons.IH)
  then show ?case
    by (simp only: normalize_segments_step)
qed

lemma normalize_segments_clean_in:
  "\<forall>seg \<in> set segs. clean_segment seg \<Longrightarrow>
   normalize_segments allow kept segs = rev kept @ segs"
  by (induction segs arbitrary: kept) (auto simp: clean_segment_def)

lemma clean_segment_plain: "clean_segment seg \<Longrightarrow> seg \<noteq> [] \<and> slash \<notin> set seg"
  by (simp add: clean_segment_def)

lemma join_slash_nonempty:
  "segs \<noteq> [] \<Longrightarrow> \<forall>seg \<in> set segs. seg \<noteq> [] \<Longrightarrow> join_slash segs \<noteq> []"
  by (induction segs rule: join_slash.induct) simp_all

lemma last_join_slash:
  "segs \<noteq> [] \<Longrightarrow> \<forall>seg \<in> set segs. seg \<noteq> [] \<and> slash \<notin> set seg \<Longrightarrow>
   last (join_slash segs) \<noteq> slash"
proof (induction segs rule: join_slash.induct)
  case 1
  then show ?case by simp
next
  case (2 seg)
  then have ne: "seg \<noteq> []" and ns: "slash \<notin> set seg" by simp_all
  from ne have mem: "last seg \<in> set seg" by (rule last_in_set)
  have "last seg \<noteq> slash"
  proof
    assume "last seg = slash"
    with mem have "slash \<in> set seg" by simp
    with ns show False by simp
  qed
  then show ?case by simp
next
  case (3 seg v va)
  then have "join_slash (v # va) \<noteq> []" by (intro join_slash_nonempty) simp_all
  with 3 show ?case by simp
qed

lemma normalize_absolute_clean:
  assumes "\<forall>seg \<in> set segs. clean_segment seg"
  shows "path_normalize (slash # join_slash segs) = slash # join_slash segs"
proof (cases segs)
  case Nil
  then show ?thesis
    by (simp add: path_normalize_def normalizeString_def slash_def)
next
  case (Cons s ss)
  then have ne: "segs \<noteq> []" by simp
  from assms have noslash: "\<forall>seg \<in> set segs. slash \<notin> set seg"
    by (simp add: clean_segment_def)
  have norm: "normalizeString (slash # join_slash segs) False = join_slash segs"
    using normalize_segments_clean_in [OF assms, of False "[]"]
    by (simp add: normalizeString_def split_slash_join [OF ne noslash])
  from assms have plain: "\<forall>seg \<in> set segs. seg \<noteq> [] \<and> slash \<notin> set seg"
    by (simp add: clean_segment_def)
  then have "\<forall>seg \<in> set segs. seg \<noteq> []" by simp
  from last_join_slash [OF ne plain] join_slash_nonempty [OF ne this]
  show ?thesis
    by (simp add: path_normalize_def norm Let_def)
qed

lemma resolve_collect_absolute:
  "resolve_collect (ps @ [dir]) acc = (rp, ab) \<Longrightarrow> dir \<noteq> [] \<Longrightarrow> hd dir = slash \<Longrightarrow> ab"
  by (induction ps arbitrary: acc) (auto split: if_splits)

lemma resolve_absolute_normalized:
  assumes "dir \<noteq> []" "hd dir = slash"
  shows "path_normalize (resolve dir args) = resolve dir args"
proof -
  obtain rp ab where rc: "resolve_collect (rev args @ [dir]) [] = (rp, ab)"
    by (cases "resolve_collect (rev args @ [dir]) []")
  from resolve_collect_absolute [OF rc assms] have ab by simp
  have clean: "\<forall>seg \<in> set (normalize_segments False [] (split_slash rp)). clean_segment seg"
    by (rule normalize_segments_clean_out) (auto dest: split_slash_no_slash)
  have r: "resolve dir args = slash # join_slash (normalize_segments False [] (split_slash rp))"
    using rc \<open>ab\<close> by (simp add: resolve_def normalizeString_def)
  show ?thesis
    unfolding r by (rule normalize_absolute_clean [OF clean])
qed


section \<open>External classifier: the default policy\<close>

text \<open>
  Claim C6. Under the default policy (no \<^verbatim>\<open>rollupOptionsExternal\<close>), a module id
  whose normalized path is the resolved path of the input file is answered with
  \<^verbatim>\<open>false\<close>, the answer that the claim calls external, whatever the extension of the
  file; and in an absolute working directory the resolved path of the input file is such
  a module id.
\<close>

theorem self_reference_answer_false:
  "(path_normalize ident = resolve dir [dir, file] \<longrightarrow>
      externalFunction dir file ExternalUndefined ident importer isResolved = Some False)
   \<and> (startsWith dir ''/'' \<longrightarrow>
      externalFunction dir file ExternalUndefined (resolve dir [dir, file]) importer isResolved
        = Some False)"
proof (intro conjI impI)
  assume "path_normalize ident = resolve dir [dir, file]"
  then show "externalFunction dir file ExternalUndefined ident importer isResolved = Some False"
    by (simp add: externalFunction_def)
next
  assume "startsWith dir ''/''"
  then have "dir \<noteq> []" and "hd dir = slash"
    by (auto simp: startsWith_iff slash_def)
  then have "path_normalize (resolve dir [dir, file]) = resolve dir [dir, file]"
    by (rule resolve_absolute_normalized)
  then show "externalFunction dir file ExternalUndefined (resolve dir [dir, file]) importer isResolved
      = Some False"
    by (simp add: externalFunction_def)
qed

theorem self_reference_answer_false_witness:
  "path_normalize ''/proj/src/a.vue'' = resolve ''/proj'' [''/proj'', ''src/a.vue'']
   \<and> startsWith ''/proj'' ''/''
   \<and> resolve ''/proj'' [''/proj'', ''src/a.ts''] = ''/proj/src/a.ts''
   \<and> externalFunction ''/proj'' ''src/a.vue'' ExternalUndefined ''/proj/src/a.vue'' None None
       = Some False
   \<and> externalFunction ''/proj'' ''src/a.ts'' ExternalUndefined ''/proj/src/a.ts'' None None
       = Some False"
proof -
  have same: "path_normalize ''/proj/src/a.vue'' = resolve ''/proj'' [''/proj'', ''src/a.vue'']"
    by (simp add: node_path_eval)
  have ts: "resolve ''/proj'' [''/proj'', ''src/a.ts''] = ''/proj/src/a.ts''"
    by (simp add: node_path_eval)
  have abs: "startsWith ''/proj'' ''/''"
    by simp
  from self_reference_answer_false [of "''/proj/src/a.vue''" "''/proj''" "''src/a.vue''" None None]
    self_reference_answer_false [of "''/proj/src/a.ts''" "''/proj''" "''src/a.ts''" None None]
    same ts abs
  show ?thesis by simp
qed

text \<open>
  Claim C7. Under the default policy a module id that ends in \<^verbatim>\<open>.css\<close>,
  \<^verbatim>\<open>.scss\<close>, \<^verbatim>\<open>.less\<close>, \<^verbatim>\<open>.sass\<close>, \<^verbatim>\<open>.svg\<close> or \<^verbatim>\<open>.json\<close> is answered
  with \<^verbatim>\<open>false\<close>, the answer that the claim calls external.
\<close>

theorem asset_suffix_answer_false:
  "ext \<in> set [''.css'', ''.scss'', ''.less'', ''.sass'', ''.svg'', ''.json''] \<Longrightarrow>
     externalFunction dir file ExternalUndefined (pre @ ext) importer isResolved = Some False"
proof -
  assume "ext \<in> set [''.css'', ''.scss'', ''.less'', ''.sass'', ''.svg'', ''.json'']"
  then have "isJson (pre @ ext) \<or> isAsset (pre @ ext)"
    unfolding isJson_def isAsset_def using str_includes_suffix [of pre ext] by auto
  then show ?thesis
    by (auto simp: externalFunction_def)
qed

theorem asset_suffix_answer_false_witness:
  "''.css'' \<in> set [''.css'', ''.scss'', ''.less'', ''.sass'', ''.svg'', ''.json'']
   \<and> externalFunction ''/proj'' ''src/a.ts'' ExternalUndefined ''./style.css'' None None = Some False"
  using asset_suffix_answer_false [of "''.css''" "''/proj''" "''src/a.ts''" "''./style''" None None]
  by simp

text \<open>
  A module id that is none of these, here a relative import and a package, is answered
  with \<^verbatim>\<open>true\<close>.
\<close>

lemma other_modules_answer_true:
  "externalFunction ''/proj'' ''src/a.ts'' ExternalUndefined ''./b'' (Some ''/proj/src/a.ts'') None
     = Some True"
  "externalFunction ''/proj'' ''src/a.ts'' ExternalUndefined ''react'' (Some ''/proj/src/a.ts'') None
     = Some True"
  by (simp_all add: externalFunction_def isJson_def isAsset_def isVueTempFile_def node_path_eval)

section \<open>Config synthesizer: the output directory\<close>

lemma get_prop_set_prop:
  "get_prop (set_prop ps key v) key' = (if key' = key then v else get_prop ps key')"
  by (induction ps) auto

lemma outputEntry_dir:
  "get_prop (outputEntry env opts) ''dir'' =
     JStr (dirname (resolve (cwd env) [outputDir opts, transformFilePath (fileRelativePath env)]))"
  by (simp add: outputEntry_def spread_def get_prop_set_prop)

text \<open>One key of the overrides at a time.\<close>

lemma merge_step_unfold:
  "mergeConfigRecursively sp defaults ((key, v) # overrides) rootPath =
     mergeConfigRecursively sp
       (if nullish v then defaults
        else
          (let existing = get_prop defaults key
           in if nullish existing then set_prop defaults key v
              else if special_field rootPath key
                then set_prop defaults key (sp rootPath key existing v)
              else if isArray existing \<or> isArray v
                then set_prop defaults key (JArr (arraify existing @ arraify v))
              else
                (case (existing, v) of
                   (JObj eprops, JObj vprops) \<Rightarrow>
                     set_prop defaults key
                       (JObj (mergeConfigRecursively sp eprops vprops (child_path rootPath key)))
                 | _ \<Rightarrow> set_prop defaults key v)))
       overrides rootPath"
  by (subst mergeConfigRecursively.simps, subst (2) mergeConfigRecursively.simps) simp

lemma merge_nil: "mergeConfigRecursively sp defaults [] rootPath = defaults"
  by (subst mergeConfigRecursively.simps) simp

text \<open>
  Merging rollup options appends what the overrides give for \<^verbatim>\<open>output\<close> to the
  array of the defaults.
\<close>

lemma merge_output_appends:
  "get_prop ro ''output'' = JArr xs \<Longrightarrow>
   get_prop (mergeConfigRecursively sp ro overrides ''rollupOptions'') ''output'' =
     JArr (xs @ outputOverrides overrides)"
proof (induction overrides arbitrary: ro xs)
  case Nil
  then show ?case by (simp add: merge_nil outputOverrides_def)
next
  case (Cons kv overrides)
  obtain key v where kv: "kv = (key, v)" by (cases kv)
  let ?step = "if nullish v then ro
        else
          (let existing = get_prop ro key
           in if nullish existing then set_prop ro key v
              else if special_field ''rollupOptions'' key
                then set_prop ro key (sp ''rollupOptions'' key existing v)
              else if isArray existing \<or> isArray v
                then set_prop ro key (JArr (arraify existing @ arraify v))
              else
                (case (existing, v) of
                   (JObj eprops, JObj vprops) \<Rightarrow>
                     set_prop ro key
                       (JObj (mergeConfigRecursively sp eprops vprops (child_path ''rollupOptions'' key)))
                 | _ \<Rightarrow> set_prop ro key v))"
  have "get_prop ?step ''output'' =
      JArr (xs @ (if key = ''output'' \<and> \<not> nullish v then arraify v else []))"
  proof (cases "key = ''output''")
    case True
    with Cons.prems show ?thesis
      by (simp add: special_field_def get_prop_set_prop)
  next
    case False
    with Cons.prems show ?thesis
      by (auto simp: Let_def get_prop_set_prop split: jsval.splits)
  qed
  from Cons.IH [OF this] show ?case
    by (simp add: kv merge_step_unfold outputOverrides_def)
qed

lemma merge_root_appends:
  "get_prop cfg ''rollupOptions'' = JObj ro \<Longrightarrow> get_prop ro ''output'' = JArr xs \<Longrightarrow>
   rollupOptionsTyped (Some overrides) \<Longrightarrow>
   \<exists>ro'. get_prop (mergeConfigRecursively sp cfg overrides []) ''rollupOptions'' = JObj ro'
        \<and> get_prop ro' ''output'' = JArr (xs @ callerOutputs (Some overrides))"
proof (induction overrides arbitrary: cfg ro xs)
  case Nil
  then show ?case by (simp add: merge_nil callerOutputs_def)
next
  case (Cons kv overrides)
  obtain key v where kv: "kv = (key, v)" by (cases kv)
  from Cons.prems(3) have typed: "key = ''rollupOptions'' \<Longrightarrow> nullish v \<or> isObject v"
    and typed_rest: "rollupOptionsTyped (Some overrides)"
    by (auto simp: rollupOptionsTyped_def kv)
  let ?step = "if nullish v then cfg
        else
          (let existing = get_prop cfg key
           in if nullish existing then set_prop cfg key v
              else if special_field [] key
                then set_prop cfg key (sp [] key existing v)
              else if isArray existing \<or> isArray v
                then set_prop cfg key (JArr (arraify existing @ arraify v))
              else
                (case (existing, v) of
                   (JObj eprops, JObj vprops) \<Rightarrow>
                     set_prop cfg key
                       (JObj (mergeConfigRecursively sp eprops vprops (child_path [] key)))
                 | _ \<Rightarrow> set_prop cfg key v))"
  let ?added = "if key = ''rollupOptions''
            then (case v of JObj ro \<Rightarrow> outputOverrides ro | other \<Rightarrow> [])
            else []"
  have "\<exists>ro'. get_prop ?step ''rollupOptions'' = JObj ro'
      \<and> get_prop ro' ''output'' = JArr (xs @ ?added)"
  proof (cases "key = ''rollupOptions''")
    case True
    show ?thesis
    proof (cases "nullish v")
      case True
      with Cons.prems(1,2) \<open>key = ''rollupOptions''\<close> show ?thesis
        by (cases v) auto
    next
      case False
      with typed [OF \<open>key = ''rollupOptions''\<close>] obtain vprops where v: "v = JObj vprops"
        by (cases v) auto
      from merge_output_appends [OF Cons.prems(2)] True Cons.prems(1) v show ?thesis
        by (simp add: special_field_def child_path_def get_prop_set_prop)
    qed
  next
    case False
    with Cons.prems(1,2) show ?thesis
      by (auto simp: Let_def get_prop_set_prop split: jsval.splits)
  qed
  then obtain ro' where "get_prop ?step ''rollupOptions'' = JObj ro'"
    and "get_prop ro' ''output'' = JArr (xs @ ?added)" by blast
  from Cons.IH [OF this typed_rest] show ?case
    by (simp add: kv merge_step_unfold callerOutputs_def)
qed

lemma configOutputs_createBuildConfig:
  "configOutputs (createBuildConfig env opts) =
     arraify (get_path (JObj (buildConfig env opts)) [''rollupOptions'', ''output''])"
  by (simp add: configOutputs_def createBuildConfig_def spread_def get_prop_set_prop)

lemmas config_eval = createBuildConfig_def buildConfig_def baseBuildConfig_def outputEntry_def
  mergeConfig_def merge_step_unfold merge_nil spread_def spread_opt_def get_prop_set_prop
  configOutputs_def outputDirOf_def special_field_def child_path_def
  exampleEnv_def mk_env_def emptyOptions_def redirectOptions_def

text \<open>
  Claim C3, as stated, fails: with \<^verbatim>\<open>buildOptions\<close> that hold an output entry of their
  own, the synthesized configuration for \<^verbatim>\<open>src/util/math.ts\<close> and the directory
  \<^verbatim>\<open>cjs\<close> has two output entries, and the directory of the second is the caller's.
\<close>

theorem buildOptions_adds_output_dir:
  "map outputDirOf
     (configOutputs (createBuildConfig (exampleEnv redirectOptions ''src/util/math.ts'')
        \<lparr>outputDir = ''cjs'', format = Cjs\<rparr>))
   = [JStr ''/proj/cjs/util'', JStr ''elsewhere'']"
  by (simp add: config_eval math_js resolved_dir)

text \<open>
  Claim C3, amended. For every input file, format and caller configuration
  (\<^verbatim>\<open>rollupOptionsOutput\<close> and \<^verbatim>\<open>buildOptions\<close>, each a value or a function, of
  their declared types), the output entries of the synthesized configuration are the entry
  built by \<^verbatim>\<open>createBuildConfig\<close>, whose \<^verbatim>\<open>dir\<close> is
  \<^verbatim>\<open>dirname(resolve(outDir, transformFilePath))\<close>, followed by the entries that
  \<^verbatim>\<open>buildOptions\<close> give under \<^verbatim>\<open>rollupOptions.output\<close>: no caller option changes
  the directory of the first entry, and \<^verbatim>\<open>buildOptions\<close> can only add entries after
  it.
\<close>

theorem synthesized_entry_dir_fixed:
  assumes "rollupOptionsTyped (resolve_option (buildOptions (options env)) (fileRelativePath env))"
  shows "configOutputs (createBuildConfig env opts) =
           JObj (outputEntry env opts)
           # callerOutputs (resolve_option (buildOptions (options env)) (fileRelativePath env))
         \<and> outputDirOf (JObj (outputEntry env opts)) =
               JStr (dirname (resolve (cwd env)
                       [outputDir opts, transformFilePath (fileRelativePath env)]))"
proof -
  let ?lbo = "resolve_option (buildOptions (options env)) (fileRelativePath env)"
  have base: "get_prop (baseBuildConfig env opts) ''rollupOptions'' =
      JObj [(''external'', lastRollupOptionsExternal env),
            (''output'', JArr [JObj (outputEntry env opts)])]"
    by (simp add: baseBuildConfig_def)
  have "\<exists>ro'. get_prop (buildConfig env opts) ''rollupOptions'' = JObj ro'
      \<and> get_prop ro' ''output'' = JArr ([JObj (outputEntry env opts)] @ callerOutputs ?lbo)"
  proof (cases ?lbo)
    case None
    with base show ?thesis
      by (simp add: buildConfig_def mergeConfig_def merge_nil callerOutputs_def)
  next
    case (Some overrides)
    with assms have "rollupOptionsTyped (Some overrides)" by simp
    from merge_root_appends [OF base _ this, of "[JObj (outputEntry env opts)]" "special env"] Some
    show ?thesis
      by (simp add: buildConfig_def mergeConfig_def)
  qed
  then have "configOutputs (createBuildConfig env opts) =
      JObj (outputEntry env opts) # callerOutputs ?lbo"
    by (auto simp: configOutputs_createBuildConfig)
  then show ?thesis
    by (simp add: outputDirOf_def outputEntry_dir)
qed


theorem synthesized_entry_dir_fixed_witness:
  "rollupOptionsTyped (resolve_option (buildOptions redirectOptions) ''src/util/math.ts'')
   \<and> configOutputs (createBuildConfig (exampleEnv redirectOptions ''src/util/math.ts'')
          \<lparr>outputDir = ''cjs'', format = Cjs\<rparr>) =
        [JObj (outputEntry (exampleEnv redirectOptions ''src/util/math.ts'')
          \<lparr>outputDir = ''cjs'', format = Cjs\<rparr>), JObj [(''dir'', JStr ''elsewhere'')]]
   \<and> outputDirOf (JObj (outputEntry (exampleEnv redirectOptions ''src/util/math.ts'')
          \<lparr>outputDir = ''cjs'', format = Cjs\<rparr>)) = JStr ''/proj/cjs/util''"
proof -
  have typed: "rollupOptionsTyped (resolve_option
      (buildOptions (options (exampleEnv redirectOptions ''src/util/math.ts'')))
      (fileRelativePath (exampleEnv redirectOptions ''src/util/math.ts'')))"
    by (simp add: rollupOptionsTyped_def exampleEnv_def mk_env_def redirectOptions_def)
  have caller: "callerOutputs (resolve_option (buildOptions redirectOptions) ''src/util/math.ts'')
      = [JObj [(''dir'', JStr ''elsewhere'')]]"
    by (simp add: callerOutputs_def outputOverrides_def redirectOptions_def)
  from synthesized_entry_dir_fixed [OF typed, of "\<lparr>outputDir = ''cjs'', format = Cjs\<rparr>"] typed caller
  show ?thesis
    by (simp add: exampleEnv_def mk_env_def math_js resolved_dir)
qed

section \<open>Single-file build driver: the build units\<close>

text \<open>
  Claim C2. Dispatch runs one build unit per format spec: a bare tag is run with the tag
  as format and the tag's name as output directory, a spec given as a pair with its own
  format and directory.
\<close>

theorem dispatch_normalizes_formats:
  "formats (options env) = Some fs \<Longrightarrow>
   buildUnits run env =
     map (\<lambda>f. lastBuild run env
            (case f of
               FormatTag tag \<Rightarrow> \<lparr>outputDir = format_name tag, format = tag\<rparr>
             | FormatWithDir tag dir \<Rightarrow> \<lparr>outputDir = dir, format = tag\<rparr>)) fs
   \<and> format_name Cjs = ''cjs'' \<and> format_name Es = ''es''"
proof -
  have "unitOptions f =
      (case f of
         FormatTag tag \<Rightarrow> \<lparr>outputDir = format_name tag, format = tag\<rparr>
       | FormatWithDir tag dir \<Rightarrow> \<lparr>outputDir = dir, format = tag\<rparr>)" for f
    by (cases f) simp_all
  moreover assume "formats (options env) = Some fs"
  ultimately show ?thesis
    by (simp add: buildUnits_def lastFormats_def)
qed

theorem dispatch_normalizes_formats_witness:
  "formats (options (exampleEnv esmOptions ''src/util/math.ts''))
     = Some [FormatTag Cjs, FormatWithDir Es ''esm'']
   \<and> buildUnits okBundler (exampleEnv esmOptions ''src/util/math.ts'') =
       [lastBuild okBundler (exampleEnv esmOptions ''src/util/math.ts'')
          \<lparr>outputDir = ''cjs'', format = Cjs\<rparr>,
        lastBuild okBundler (exampleEnv esmOptions ''src/util/math.ts'')
          \<lparr>outputDir = ''esm'', format = Es\<rparr>]"
proof -
  have fs: "formats (options (exampleEnv esmOptions ''src/util/math.ts''))
     = Some [FormatTag Cjs, FormatWithDir Es ''esm'']"
    by (simp add: exampleEnv_def mk_env_def esmOptions_def)
  from dispatch_normalizes_formats [OF fs, of okBundler] fs show ?thesis by simp
qed

text \<open>
  Claim C1, as stated, fails: for \<^verbatim>\<open>src/util/math.ts\<close> and the formats
  \<^verbatim>\<open>["cjs", {format: "es", outDir: "esm"}]\<close> the destination written for the bare tag
  is \<^verbatim>\<open>cjs/util/math.js\<close>, not \<^verbatim>\<open>lib/util/math.js\<close>.
\<close>

theorem bare_cjs_tag_not_lib:
  "buildUnits okBundler (exampleEnv esmOptions ''src/util/math.ts'') =
       [Inr (OutputArray [RollupOutput
              [\<lparr>fileName = ''index.js'', outputFilePath = Some ''cjs/util/math.js''\<rparr>]]),
        Inr (OutputArray [RollupOutput
              [\<lparr>fileName = ''index.js'', outputFilePath = Some ''esm/util/math.js''\<rparr>]])]
   \<and> destination (exampleEnv esmOptions ''src/util/math.ts'') (unitOptions (FormatTag Cjs))
       \<noteq> ''lib/util/math.js''"
  by (simp add: buildUnits_def lastFormats_def lastBuild_def okBundler_def annotate_def
      destination_def math_js exampleEnv_def mk_env_def esmOptions_def emptyOptions_def)

text \<open>
  Claim C1, amended. For \<^verbatim>\<open>src/util/math.ts\<close> and the formats
  \<^verbatim>\<open>["cjs", {format: "es", outDir: "esm"}]\<close>, exactly two build units are dispatched;
  their destinations are \<^verbatim>\<open>cjs/util/math.js\<close> for the bare tag and
  \<^verbatim>\<open>esm/util/math.js\<close> for the pair, and the output of each unit that the bundler
  resolves is annotated with its destination.
\<close>

theorem math_ts_two_units:
  assumes "fileRelativePath env = ''src/util/math.ts''"
    and "formats (options env) = Some [FormatTag Cjs, FormatWithDir Es ''esm'']"
  shows "buildUnits run env =
           [lastBuild run env \<lparr>outputDir = ''cjs'', format = Cjs\<rparr>,
            lastBuild run env \<lparr>outputDir = ''esm'', format = Es\<rparr>]
         \<and> destination env \<lparr>outputDir = ''cjs'', format = Cjs\<rparr> = ''cjs/util/math.js''
         \<and> destination env \<lparr>outputDir = ''esm'', format = Es\<rparr> = ''esm/util/math.js''
         \<and> (run (createBuildConfig env \<lparr>outputDir = ''cjs'', format = Cjs\<rparr>) = Inr result \<longrightarrow>
              lastBuild run env \<lparr>outputDir = ''cjs'', format = Cjs\<rparr>
                = Inr (annotate ''cjs/util/math.js'' result))
         \<and> (run (createBuildConfig env \<lparr>outputDir = ''esm'', format = Es\<rparr>) = Inr result' \<longrightarrow>
              lastBuild run env \<lparr>outputDir = ''esm'', format = Es\<rparr>
                = Inr (annotate ''esm/util/math.js'' result'))"
proof -
  have "buildUnits run env =
      [lastBuild run env (unitOptions (FormatTag Cjs)),
       lastBuild run env (unitOptions (FormatWithDir Es ''esm''))]"
    using assms(2) by (simp add: buildUnits_def lastFormats_def)
  then have units: "buildUnits run env =
      [lastBuild run env \<lparr>outputDir = ''cjs'', format = Cjs\<rparr>,
       lastBuild run env \<lparr>outputDir = ''esm'', format = Es\<rparr>]"
    by simp
  have dest: "destination env \<lparr>outputDir = ''cjs'', format = Cjs\<rparr> = ''cjs/util/math.js''"
    "destination env \<lparr>outputDir = ''esm'', format = Es\<rparr> = ''esm/util/math.js''"
    using assms(1) by (simp_all add: destination_def math_js)
  show ?thesis
    by (simp add: units dest lastBuild_def)
qed

theorem math_ts_two_units_witness:
  "fileRelativePath (exampleEnv esmOptions ''src/util/math.ts'') = ''src/util/math.ts''
   \<and> formats (options (exampleEnv esmOptions ''src/util/math.ts''))
       = Some [FormatTag Cjs, FormatWithDir Es ''esm'']
   \<and> buildUnits okBundler (exampleEnv esmOptions ''src/util/math.ts'') =
       [Inr (OutputArray [RollupOutput
              [\<lparr>fileName = ''index.js'', outputFilePath = Some ''cjs/util/math.js''\<rparr>]]),
        Inr (OutputArray [RollupOutput
              [\<lparr>fileName = ''index.js'', outputFilePath = Some ''esm/util/math.js''\<rparr>]])]"
proof -
  have f: "fileRelativePath (exampleEnv esmOptions ''src/util/math.ts'') = ''src/util/math.ts''"
    and fs: "formats (options (exampleEnv esmOptions ''src/util/math.ts''))
       = Some [FormatTag Cjs, FormatWithDir Es ''esm'']"
    by (simp_all add: exampleEnv_def mk_env_def esmOptions_def)
  from math_ts_two_units [OF f fs, of okBundler
      "OutputArray [RollupOutput [\<lparr>fileName = ''index.js'', outputFilePath = None\<rparr>]]"
      "OutputArray [RollupOutput [\<lparr>fileName = ''index.js'', outputFilePath = None\<rparr>]]"] f fs
  show ?thesis
    by (simp add: okBundler_def annotate_def)
qed

section \<open>Batch orchestrator: the events of a batch\<close>

text \<open>
  \<^verbatim>\<open>Promise.all\<close> resolves exactly when every promise of the list resolves.
\<close>

lemma promise_all_resolves:
  "(\<exists>vs. promise_all rs = Inr vs) \<longleftrightarrow> (\<forall>r \<in> set rs. \<exists>v. r = Inr v)"
proof (induction rs rule: promise_all.induct)
  case 1
  show ?case by simp
next
  case (2 err rs)
  show ?case by simp
next
  case (3 v rs)
  then show ?case by (auto split: sum.splits)
qed

text \<open>
  The builds of a file resolve exactly when the bundler resolves the configuration of
  every one of its build units; one rejected unit rejects the file.
\<close>

lemma resolves_iff_units:
  "resolves run env \<longleftrightarrow>
     (\<forall>f \<in> set (lastFormats env). \<exists>res. run (createBuildConfig env (unitOptions f)) = Inr res)"
proof -
  have "resolves run env \<longleftrightarrow> (\<exists>vs. promise_all (buildUnits run env) = Inr vs)"
    by (auto simp: resolves_def split: sum.splits)
  also have "\<dots> \<longleftrightarrow> (\<forall>r \<in> set (buildUnits run env). \<exists>v. r = Inr v)"
    by (rule promise_all_resolves)
  also have "\<dots> \<longleftrightarrow>
      (\<forall>f \<in> set (lastFormats env). \<exists>v. lastBuild run env (unitOptions f) = Inr v)"
    by (auto simp: buildUnits_def)
  also have "\<dots> \<longleftrightarrow>
      (\<forall>f \<in> set (lastFormats env). \<exists>res. run (createBuildConfig env (unitOptions f)) = Inr res)"
  proof -
    have "(\<exists>v. lastBuild run env u = Inr v) \<longleftrightarrow> (\<exists>res. run (createBuildConfig env u) = Inr res)"
      for u
      by (cases "run (createBuildConfig env u)") (simp_all add: lastBuild_def)
    then show ?thesis by simp
  qed
  finally show ?thesis .
qed

lemma transformFile_resolves:
  "resolves run env \<Longrightarrow>
   transformFile run env st =
     (Inr (fileRelativePath env),
      st\<lparr>incrementCount := Suc (incrementCount st),
         events := events st @ [SingleFileBuildSuccess (Suc (incrementCount st)) (fileRelativePath env)]\<rparr>)"
  by (auto simp: resolves_def transformFile_def emit_def split: sum.splits)

lemma transformFile_rejects:
  "\<not> resolves run env \<Longrightarrow> \<exists>err. transformFile run env st = (Inl err, st)"
  by (auto simp: resolves_def transformFile_def split: sum.splits)

lemma mk_env_file [simp]: "fileRelativePath (mk_env dir sp ro item) = item"
  by (simp add: mk_env_def)

text \<open>
  A run of the pool: the counter grows by the number of the files whose builds resolve,
  their callbacks are called in the order of completion, and the result reports an error
  when some file was rejected.
\<close>

lemma pool_run:
  "runInTaskPool completion (\<lambda>item. transformFile run (mk_env dir sp ro item)) st =
     (\<not> list_all (\<lambda>item. resolves run (mk_env dir sp ro item)) completion,
      st\<lparr>incrementCount :=
            incrementCount st + length (filter (\<lambda>item. resolves run (mk_env dir sp ro item)) completion),
         events := events st @
            success_events (incrementCount st)
              (filter (\<lambda>item. resolves run (mk_env dir sp ro item)) completion)\<rparr>)"
proof (induction completion arbitrary: st)
  case Nil
  show ?case by simp
next
  case (Cons item completion)
  show ?case
  proof (cases "resolves run (mk_env dir sp ro item)")
    case True
    from transformFile_resolves [OF True, of st] show ?thesis
      by (simp add: Cons.IH True)
  next
    case False
    from transformFile_rejects [OF False, of st] obtain err
      where "transformFile run (mk_env dir sp ro item) st = (Inl err, st)" ..
    then show ?thesis
      by (simp add: Cons.IH False)
  qed
qed

lemma buildFiles_run:
  "buildFiles run dir sp ro srcFilePaths completion st =
     \<lparr>incrementCount = 0,
      events = events st @ [StartBuild (length srcFilePaths)]
        @ success_events 0 (filter (\<lambda>item. resolves run (mk_env dir sp ro item)) completion)
        @ (if list_all (\<lambda>item. resolves run (mk_env dir sp ro item)) completion then []
           else [PartialErrorLine])
        @ [EndBuild (length (filter (\<lambda>item. resolves run (mk_env dir sp ro item)) completion))]\<rparr>"
  by (simp add: buildFiles_def pool_run emit_def Let_def)

lemma success_events_mem:
  "item \<in> set items \<Longrightarrow> \<exists>k. SingleFileBuildSuccess k item \<in> set (success_events n items)"
  by (induction items arbitrary: n) auto

lemma success_events_only:
  "e \<in> set (success_events n items) \<Longrightarrow> \<exists>k item. e = SingleFileBuildSuccess k item \<and> item \<in> set items"
proof (induction items arbitrary: n)
  case Nil
  then show ?case by simp
next
  case (Cons a items)
  show ?case
  proof (cases "e = SingleFileBuildSuccess (Suc n) a")
    case True
    then show ?thesis by simp
  next
    case False
    with Cons.prems have "e \<in> set (success_events (Suc n) items)" by simp
    from Cons.IH [OF this] show ?thesis by auto
  qed
qed

lemma filter_perm_length:
  "mset xs = mset ys \<Longrightarrow> length (filter P xs) = length (filter P ys)"
  by (metis mset_filter size_mset)

lemma list_all_perm:
  "mset xs = mset ys \<Longrightarrow> list_all P xs = list_all P ys"
  by (metis list_all_iff mset_eq_setD)

text \<open>The configurations that the example bundlers are given under the options \<^verbatim>\<open>{}\<close>.\<close>

lemma config_entry:
  "resolve_option (buildOptions (options env)) (fileRelativePath env) = None \<Longrightarrow>
   get_path (createBuildConfig env opts) [''build'', ''lib'', ''entry''] =
     JStr (resolve (cwd env) [cwd env, fileRelativePath env])"
  by (simp add: createBuildConfig_def spread_def get_prop_set_prop buildConfig_def
      mergeConfig_def merge_nil baseBuildConfig_def)

lemma config_formats:
  "resolve_option (buildOptions (options env)) (fileRelativePath env) = None \<Longrightarrow>
   resolve_option (rollupOptionsOutput (options env)) (transformFilePath (fileRelativePath env)) = None \<Longrightarrow>
   map (\<lambda>e. get_path e [''format'']) (configOutputs (createBuildConfig env opts)) =
     [JStr (format_name (format opts))]"
  by (simp add: configOutputs_createBuildConfig buildConfig_def mergeConfig_def merge_nil
      baseBuildConfig_def outputEntry_def spread_def spread_opt_def get_prop_set_prop)

lemma rejectingBundler_unit:
  "rejectingBundler entry fmt (createBuildConfig (mk_env dir sp emptyOptions item) opts) =
     (if resolve dir [dir, item] = entry \<and> format_name (format opts) = fmt
      then Inl (BuildError ''compile error'')
      else okBundler (createBuildConfig (mk_env dir sp emptyOptions item) opts))"
proof -
  have "resolve_option (buildOptions (options (mk_env dir sp emptyOptions item)))
      (fileRelativePath (mk_env dir sp emptyOptions item)) = None"
    and "resolve_option (rollupOptionsOutput (options (mk_env dir sp emptyOptions item)))
      (transformFilePath (fileRelativePath (mk_env dir sp emptyOptions item))) = None"
    by (simp_all add: mk_env_def emptyOptions_def)
  from config_entry [OF this(1)] config_formats [OF this] show ?thesis
    by (simp add: rejectingBundler_def mk_env_def)
qed

lemma emptyOptions_formats:
  "lastFormats (mk_env dir sp emptyOptions item) = [FormatTag Cjs, FormatTag Es]"
  by (simp add: lastFormats_def mk_env_def emptyOptions_def)

text \<open>
  Claim C8. Let the pool complete the files of a batch in any order, and call a file
  built when the bundler resolves every one of its build units: a file with a rejected
  unit is not built. The per-file callback is called for every built file, whatever
  happens to the other files, and for no other file; the red line is written exactly when
  the pool reports a partial error, which it does exactly when some file is not built; and
  the batch-end callback is called with the number of the built files.
\<close>

theorem partial_failure_isolated:
  fixes run :: bundler and dir :: string and sp :: special_merge and ro :: BuildFilesOptions
  defines "built \<equiv> \<lambda>item. \<forall>f \<in> set (lastFormats (mk_env dir sp ro item)).
             \<exists>res. run (createBuildConfig (mk_env dir sp ro item) (unitOptions f)) = Inr res"
  defines "worker \<equiv> \<lambda>item. transformFile run (mk_env dir sp ro item)"
  assumes perm: "mset completion = mset srcFilePaths"
  shows "events (buildFiles run dir sp ro srcFilePaths completion st) =
           events st @ [StartBuild (length srcFilePaths)]
           @ success_events 0 (filter built completion)
           @ (if fst (runInTaskPool completion worker
                       (emit (StartBuild (length srcFilePaths)) (st\<lparr>incrementCount := 0\<rparr>)))
              then [PartialErrorLine] else [])
           @ [EndBuild (length (filter built srcFilePaths))]
         \<and> (fst (runInTaskPool completion worker
                    (emit (StartBuild (length srcFilePaths)) (st\<lparr>incrementCount := 0\<rparr>)))
              \<longleftrightarrow> (\<exists>item \<in> set srcFilePaths. \<exists>f \<in> set (lastFormats (mk_env dir sp ro item)).
                     \<exists>err. run (createBuildConfig (mk_env dir sp ro item) (unitOptions f)) = Inl err))
         \<and> (\<forall>item \<in> set srcFilePaths. built item \<longrightarrow>
               (\<exists>k. SingleFileBuildSuccess k item
                      \<in> set (events (buildFiles run dir sp ro srcFilePaths completion st))))
         \<and> (\<forall>k item. SingleFileBuildSuccess k item
                      \<in> set (drop (length (events st))
                                (events (buildFiles run dir sp ro srcFilePaths completion st)))
               \<longrightarrow> item \<in> set srcFilePaths \<and> built item)"
proof -
  have built: "built = (\<lambda>item. resolves run (mk_env dir sp ro item))"
    unfolding built_def by (simp add: resolves_iff_units)
  have count: "length (filter built completion) = length (filter built srcFilePaths)"
    using perm by (rule filter_perm_length)
  have all: "list_all built completion = list_all built srcFilePaths"
    using perm by (rule list_all_perm)
  have same: "set completion = set srcFilePaths"
    using perm by (rule mset_eq_setD)
  have log: "events (buildFiles run dir sp ro srcFilePaths completion st) =
      events st @ [StartBuild (length srcFilePaths)]
      @ success_events 0 (filter built completion)
      @ (if list_all built srcFilePaths then [] else [PartialErrorLine])
      @ [EndBuild (length (filter built srcFilePaths))]"
    unfolding built
    by (simp add: buildFiles_run count [unfolded built] all [unfolded built])
  have flag: "fst (runInTaskPool completion worker
      (emit (StartBuild (length srcFilePaths)) (st\<lparr>incrementCount := 0\<rparr>)))
      \<longleftrightarrow> \<not> list_all built srcFilePaths"
    unfolding worker_def built by (simp add: pool_run all [unfolded built])
  have unbuilt: "\<not> list_all built srcFilePaths \<longleftrightarrow>
      (\<exists>item \<in> set srcFilePaths. \<exists>f \<in> set (lastFormats (mk_env dir sp ro item)).
         \<exists>err. run (createBuildConfig (mk_env dir sp ro item) (unitOptions f)) = Inl err)"
  proof -
    have "(\<nexists>res. r = Inr res) \<longleftrightarrow> (\<exists>err. r = Inl err)" for r :: "build_error + build_result"
      by (cases r) simp_all
    then show ?thesis
      unfolding built_def by (simp add: list_all_iff)
  qed
  have called: "\<exists>k. SingleFileBuildSuccess k item
        \<in> set (events (buildFiles run dir sp ro srcFilePaths completion st))"
    if "item \<in> set srcFilePaths" "built item" for item
  proof -
    from that same have "item \<in> set (filter built completion)" by simp
    from success_events_mem [OF this, of 0] show ?thesis
      unfolding log by auto
  qed
  have only: "item \<in> set srcFilePaths \<and> built item"
    if "SingleFileBuildSuccess k item
        \<in> set (drop (length (events st))
                  (events (buildFiles run dir sp ro srcFilePaths completion st)))" for k item
  proof -
    from that have "SingleFileBuildSuccess k item \<in> set (success_events 0 (filter built completion))"
      unfolding log by (auto split: if_splits)
    from success_events_only [OF this] same show ?thesis by auto
  qed
  have c1: "events (buildFiles run dir sp ro srcFilePaths completion st) =
      events st @ [StartBuild (length srcFilePaths)]
      @ success_events 0 (filter built completion)
      @ (if fst (runInTaskPool completion worker
                  (emit (StartBuild (length srcFilePaths)) (st\<lparr>incrementCount := 0\<rparr>)))
         then [PartialErrorLine] else [])
      @ [EndBuild (length (filter built srcFilePaths))]"
    unfolding log flag by simp
  have c2: "fst (runInTaskPool completion worker
      (emit (StartBuild (length srcFilePaths)) (st\<lparr>incrementCount := 0\<rparr>)))
      \<longleftrightarrow> (\<exists>item \<in> set srcFilePaths. \<exists>f \<in> set (lastFormats (mk_env dir sp ro item)).
             \<exists>err. run (createBuildConfig (mk_env dir sp ro item) (unitOptions f)) = Inl err)"
    unfolding flag by (rule unbuilt)
  have c3: "\<forall>item \<in> set srcFilePaths. built item \<longrightarrow>
      (\<exists>k. SingleFileBuildSuccess k item
             \<in> set (events (buildFiles run dir sp ro srcFilePaths completion st)))"
    using called by blast
  have c4: "\<forall>k item. SingleFileBuildSuccess k item
        \<in> set (drop (length (events st))
                  (events (buildFiles run dir sp ro srcFilePaths completion st)))
      \<longrightarrow> item \<in> set srcFilePaths \<and> built item"
    using only by blast
  show ?thesis
    by (intro conjI) (rule c1 c2 c3 c4)+
qed

text \<open>
  Three files; the bundler rejects one build unit, the es unit of the second file, and the
  pool completes the third file first: the callbacks of the two other files are called,
  the red line is written and the batch ends with 2.
\<close>

theorem partial_failure_isolated_witness:
  "mset [''src/c.ts'', ''src/a.ts'', ''src/b.ts''] = mset [''src/a.ts'', ''src/b.ts'', ''src/c.ts'']
   \<and> rejectingBundler ''/proj/src/b.ts'' ''es''
        (createBuildConfig (mk_env ''/proj'' takeOverride emptyOptions ''src/b.ts'')
           (unitOptions (FormatTag Es))) = Inl (BuildError ''compile error'')
   \<and> rejectingBundler ''/proj/src/b.ts'' ''es''
        (createBuildConfig (mk_env ''/proj'' takeOverride emptyOptions ''src/b.ts'')
           (unitOptions (FormatTag Cjs)))
       = Inr (OutputArray [RollupOutput [\<lparr>fileName = ''index.js'', outputFilePath = None\<rparr>]])
   \<and> events (buildFiles (rejectingBundler ''/proj/src/b.ts'' ''es'') ''/proj'' takeOverride emptyOptions
         [''src/a.ts'', ''src/b.ts'', ''src/c.ts''] [''src/c.ts'', ''src/a.ts'', ''src/b.ts'']
         \<lparr>incrementCount = 0, events = []\<rparr>) =
       [StartBuild 3, SingleFileBuildSuccess 1 ''src/c.ts'', SingleFileBuildSuccess 2 ''src/a.ts'',
        PartialErrorLine, EndBuild 2]"
proof -
  have perm: "mset [''src/c.ts'', ''src/a.ts'', ''src/b.ts''] = mset [''src/a.ts'', ''src/b.ts'', ''src/c.ts'']"
    by simp
  have a: "resolve ''/proj'' [''/proj'', ''src/a.ts''] = ''/proj/src/a.ts''"
    and b: "resolve ''/proj'' [''/proj'', ''src/b.ts''] = ''/proj/src/b.ts''"
    and c: "resolve ''/proj'' [''/proj'', ''src/c.ts''] = ''/proj/src/c.ts''"
    by (simp_all add: node_path_eval)
  note batch = partial_failure_isolated [OF perm, where run = "rejectingBundler ''/proj/src/b.ts'' ''es''"
      and dir = "''/proj''" and sp = takeOverride and ro = emptyOptions
      and st = "\<lparr>incrementCount = 0, events = []\<rparr>"]
  have unit_es: "rejectingBundler ''/proj/src/b.ts'' ''es''
        (createBuildConfig (mk_env ''/proj'' takeOverride emptyOptions ''src/b.ts'')
           (unitOptions (FormatTag Es))) = Inl (BuildError ''compile error'')"
    and unit_cjs: "rejectingBundler ''/proj/src/b.ts'' ''es''
        (createBuildConfig (mk_env ''/proj'' takeOverride emptyOptions ''src/b.ts'')
           (unitOptions (FormatTag Cjs)))
       = Inr (OutputArray [RollupOutput [\<lparr>fileName = ''index.js'', outputFilePath = None\<rparr>]])"
    by (simp_all add: rejectingBundler_unit b okBundler_def)
  have "\<exists>item \<in> set [''src/a.ts'', ''src/b.ts'', ''src/c.ts''].
      \<exists>f \<in> set (lastFormats (mk_env ''/proj'' takeOverride emptyOptions item)).
      \<exists>err. rejectingBundler ''/proj/src/b.ts'' ''es''
        (createBuildConfig (mk_env ''/proj'' takeOverride emptyOptions item) (unitOptions f)) = Inl err"
    by (simp add: emptyOptions_formats rejectingBundler_unit b)
  note flag = iffD2 [OF batch [THEN conjunct2, THEN conjunct1] this]
  have log: "events (buildFiles (rejectingBundler ''/proj/src/b.ts'' ''es'') ''/proj'' takeOverride emptyOptions
         [''src/a.ts'', ''src/b.ts'', ''src/c.ts''] [''src/c.ts'', ''src/a.ts'', ''src/b.ts'']
         \<lparr>incrementCount = 0, events = []\<rparr>) =
       [StartBuild 3, SingleFileBuildSuccess 1 ''src/c.ts'', SingleFileBuildSuccess 2 ''src/a.ts'',
        PartialErrorLine, EndBuild 2]"
    unfolding batch [THEN conjunct1] if_P [OF flag]
    by (simp add: rejectingBundler_unit emptyOptions_formats a b c okBundler_def)
  show ?thesis
    by (intro conjI) (rule perm unit_es unit_cjs log)+
qed

text \<open>
  Claim C9. A call of \<^verbatim>\<open>transformFile\<close> increments the counter by exactly one, and
  calls the per-file callback with the new count, when the bundler resolves every build
  unit of its file; with a rejected unit it leaves the counter and the events alone. A
  batch counts from zero whatever the counter was before, ends with the number of its own
  files that were built, and leaves the counter at zero; so a second batch run after it
  reports its own count.
\<close>

theorem counter_reset_between_batches:
  fixes run :: bundler and dir :: string and sp :: special_merge and ro :: BuildFilesOptions
  defines "built \<equiv> \<lambda>item. \<forall>f \<in> set (lastFormats (mk_env dir sp ro item)).
             \<exists>res. run (createBuildConfig (mk_env dir sp ro item) (unitOptions f)) = Inr res"
  defines "hasPartialError \<equiv> \<lambda>items. \<not> list_all built items"
  assumes perm1: "mset completion1 = mset files1" and perm2: "mset completion2 = mset files2"
  shows "((\<forall>f \<in> set (lastFormats env). \<exists>res. run (createBuildConfig env (unitOptions f)) = Inr res)
            \<longrightarrow> snd (transformFile run env st) =
                  st\<lparr>incrementCount := incrementCount st + 1,
                     events := events st
                       @ [SingleFileBuildSuccess (incrementCount st + 1) (fileRelativePath env)]\<rparr>)
         \<and> ((\<exists>f \<in> set (lastFormats env). \<exists>err. run (createBuildConfig env (unitOptions f)) = Inl err)
            \<longrightarrow> snd (transformFile run env st) = st)
         \<and> incrementCount (buildFiles run dir sp ro files1 completion1 st) = 0
         \<and> events (buildFiles run dir sp ro files1 completion1 st) =
             events st @ [StartBuild (length files1)] @ success_events 0 (filter built completion1)
             @ (if hasPartialError files1 then [PartialErrorLine] else [])
             @ [EndBuild (length (filter built files1))]
         \<and> incrementCount (buildFiles run dir sp ro files2 completion2
              (buildFiles run dir sp ro files1 completion1 st)) = 0
         \<and> events (buildFiles run dir sp ro files2 completion2
              (buildFiles run dir sp ro files1 completion1 st)) =
             events (buildFiles run dir sp ro files1 completion1 st)
             @ [StartBuild (length files2)] @ success_events 0 (filter built completion2)
             @ (if hasPartialError files2 then [PartialErrorLine] else [])
             @ [EndBuild (length (filter built files2))]"
proof -
  have built: "built = (\<lambda>item. resolves run (mk_env dir sp ro item))"
    unfolding built_def by (simp add: resolves_iff_units)
  have inc: "snd (transformFile run env st) =
      st\<lparr>incrementCount := incrementCount st + 1,
         events := events st
           @ [SingleFileBuildSuccess (incrementCount st + 1) (fileRelativePath env)]\<rparr>"
    if "\<forall>f \<in> set (lastFormats env). \<exists>res. run (createBuildConfig env (unitOptions f)) = Inr res"
  proof -
    from that have "resolves run env" by (simp add: resolves_iff_units)
    from transformFile_resolves [OF this, of st] show ?thesis by simp
  qed
  have keep: "snd (transformFile run env st) = st"
    if "\<exists>f \<in> set (lastFormats env). \<exists>err. run (createBuildConfig env (unitOptions f)) = Inl err"
  proof -
    from that obtain f err where f: "f \<in> set (lastFormats env)"
      and "run (createBuildConfig env (unitOptions f)) = Inl err" by blast
    then have "\<nexists>res. run (createBuildConfig env (unitOptions f)) = Inr res" by simp
    with f have "\<not> resolves run env" unfolding resolves_iff_units by blast
    from transformFile_rejects [OF this, of st] show ?thesis by auto
  qed
  have batch: "buildFiles run dir sp ro files completion s =
      \<lparr>incrementCount = 0,
       events = events s @ [StartBuild (length files)] @ success_events 0 (filter built completion)
         @ (if hasPartialError files then [PartialErrorLine] else [])
         @ [EndBuild (length (filter built files))]\<rparr>"
    if "mset completion = mset files" for files completion s
    using filter_perm_length [OF that, of built] list_all_perm [OF that, of built]
    by (simp add: buildFiles_run built hasPartialError_def)
  show ?thesis
    unfolding batch [OF perm1] batch [OF perm2] using inc keep by simp
qed

text \<open>
  A file whose es unit is rejected leaves the counter at 7; then a batch of five files and
  a batch of three, all built, with the counter at 7 before the first batch: the batches
  end with 5 and with 3.
\<close>

theorem counter_reset_between_batches_witness:
  "mset [''src/a.ts'', ''src/b.ts'', ''src/c.ts'', ''src/d.ts'', ''src/e.ts'']
     = mset [''src/a.ts'', ''src/b.ts'', ''src/c.ts'', ''src/d.ts'', ''src/e.ts'']
   \<and> mset [''src/z.ts'', ''src/x.ts'', ''src/y.ts''] = mset [''src/x.ts'', ''src/y.ts'', ''src/z.ts'']
   \<and> snd (transformFile (rejectingBundler ''/proj/src/b.ts'' ''es'')
          (mk_env ''/proj'' takeOverride emptyOptions ''src/b.ts'') \<lparr>incrementCount = 7, events = []\<rparr>)
       = \<lparr>incrementCount = 7, events = []\<rparr>
   \<and> snd (transformFile (rejectingBundler ''/proj/src/b.ts'' ''es'')
          (mk_env ''/proj'' takeOverride emptyOptions ''src/a.ts'') \<lparr>incrementCount = 7, events = []\<rparr>)
       = \<lparr>incrementCount = 8, events = [SingleFileBuildSuccess 8 ''src/a.ts'']\<rparr>
   \<and> events (buildFiles okBundler ''/proj'' takeOverride emptyOptions
         [''src/x.ts'', ''src/y.ts'', ''src/z.ts''] [''src/z.ts'', ''src/x.ts'', ''src/y.ts'']
         (buildFiles okBundler ''/proj'' takeOverride emptyOptions
            [''src/a.ts'', ''src/b.ts'', ''src/c.ts'', ''src/d.ts'', ''src/e.ts'']
            [''src/a.ts'', ''src/b.ts'', ''src/c.ts'', ''src/d.ts'', ''src/e.ts'']
            \<lparr>incrementCount = 7, events = []\<rparr>)) =
       [StartBuild 5, SingleFileBuildSuccess 1 ''src/a.ts'', SingleFileBuildSuccess 2 ''src/b.ts'',
        SingleFileBuildSuccess 3 ''src/c.ts'', SingleFileBuildSuccess 4 ''src/d.ts'',
        SingleFileBuildSuccess 5 ''src/e.ts'', EndBuild 5,
        StartBuild 3, SingleFileBuildSuccess 1 ''src/z.ts'', SingleFileBuildSuccess 2 ''src/x.ts'',
        SingleFileBuildSuccess 3 ''src/y.ts'', EndBuild 3]"
proof -
  have perm1: "mset [''src/a.ts'', ''src/b.ts'', ''src/c.ts'', ''src/d.ts'', ''src/e.ts'']
     = mset [''src/a.ts'', ''src/b.ts'', ''src/c.ts'', ''src/d.ts'', ''src/e.ts'']"
    by simp
  have perm2: "mset [''src/z.ts'', ''src/x.ts'', ''src/y.ts''] = mset [''src/x.ts'', ''src/y.ts'', ''src/z.ts'']"
    by simp
  have a: "resolve ''/proj'' [''/proj'', ''src/a.ts''] = ''/proj/src/a.ts''"
    and b: "resolve ''/proj'' [''/proj'', ''src/b.ts''] = ''/proj/src/b.ts''"
    by (simp_all add: node_path_eval)
  have rejected: "snd (transformFile (rejectingBundler ''/proj/src/b.ts'' ''es'')
          (mk_env ''/proj'' takeOverride emptyOptions ''src/b.ts'') \<lparr>incrementCount = 7, events = []\<rparr>)
       = \<lparr>incrementCount = 7, events = []\<rparr>"
    using counter_reset_between_batches [OF perm1 perm2,
        where run = "rejectingBundler ''/proj/src/b.ts'' ''es''"
          and env = "mk_env ''/proj'' takeOverride emptyOptions ''src/b.ts''"
          and st = "\<lparr>incrementCount = 7, events = []\<rparr>", THEN conjunct2, THEN conjunct1]
    by (simp add: rejectingBundler_unit emptyOptions_formats b)
  have resolved: "snd (transformFile (rejectingBundler ''/proj/src/b.ts'' ''es'')
          (mk_env ''/proj'' takeOverride emptyOptions ''src/a.ts'') \<lparr>incrementCount = 7, events = []\<rparr>)
       = \<lparr>incrementCount = 8, events = [SingleFileBuildSuccess 8 ''src/a.ts'']\<rparr>"
    using counter_reset_between_batches [OF perm1 perm2,
        where run = "rejectingBundler ''/proj/src/b.ts'' ''es''"
          and env = "mk_env ''/proj'' takeOverride emptyOptions ''src/a.ts''"
          and st = "\<lparr>incrementCount = 7, events = []\<rparr>", THEN conjunct1]
    by (simp add: rejectingBundler_unit emptyOptions_formats a okBundler_def)
  have batches: "events (buildFiles okBundler ''/proj'' takeOverride emptyOptions
         [''src/x.ts'', ''src/y.ts'', ''src/z.ts''] [''src/z.ts'', ''src/x.ts'', ''src/y.ts'']
         (buildFiles okBundler ''/proj'' takeOverride emptyOptions
            [''src/a.ts'', ''src/b.ts'', ''src/c.ts'', ''src/d.ts'', ''src/e.ts'']
            [''src/a.ts'', ''src/b.ts'', ''src/c.ts'', ''src/d.ts'', ''src/e.ts'']
            \<lparr>incrementCount = 7, events = []\<rparr>)) =
       [StartBuild 5, SingleFileBuildSuccess 1 ''src/a.ts'', SingleFileBuildSuccess 2 ''src/b.ts'',
        SingleFileBuildSuccess 3 ''src/c.ts'', SingleFileBuildSuccess 4 ''src/d.ts'',
        SingleFileBuildSuccess 5 ''src/e.ts'', EndBuild 5,
        StartBuild 3, SingleFileBuildSuccess 1 ''src/z.ts'', SingleFileBuildSuccess 2 ''src/x.ts'',
        SingleFileBuildSuccess 3 ''src/y.ts'', EndBuild 3]"
    using counter_reset_between_batches [OF perm1 perm2, where run = okBundler
        and dir = "''/proj''" and sp = takeOverride and ro = emptyOptions
        and env = "mk_env ''/proj'' takeOverride emptyOptions ''src/a.ts''"
        and st = "\<lparr>incrementCount = 7, events = []\<rparr>"]
    by (simp add: okBundler_def)
  show ?thesis
    by (intro conjI) (rule perm1 perm2 rejected resolved batches)+
qed

end
